theory Spec2Isabelle
  imports Complex_Main "HOL-Library.Multiset"
begin

section \<open>JavaScript numbers\<close>

text \<open>
  The scoring library \<^verbatim>\<open>ff-scoring.mjs\<close> computes with JavaScript numbers, which are
  IEEE-754 doubles. A finite double is modelled by the real number it denotes, and every
  arithmetic operation returns the exact result rounded to the nearest double, a tie
  going to the even mantissa. \<open>rd\<close> is that rounding: \<open>binade x\<close> is the exponent of
  \<open>x\<close>, \<open>ulp x\<close> the distance between the doubles around \<open>x\<close> (the mantissa has 53
  bits), and \<open>rd x\<close> the multiple of \<open>ulp x\<close> nearest to \<open>x\<close>. The range of the
  exponent is left unbounded: overflow to an infinity (above \<open>1.8e308\<close>) and the
  subnormal numbers (below \<open>2.3e-308\<close>) are not modelled.
\<close>

definition round_even :: "real \<Rightarrow> int" where
  "round_even y =
     (let n = \<lfloor>y\<rfloor>; r = y - of_int n
      in if r < 1 / 2 then n else if 1 / 2 < r then n + 1 else if even n then n else n + 1)"

definition binade :: "real \<Rightarrow> int" where
  "binade x = \<lfloor>log 2 \<bar>x\<bar>\<rfloor>"

definition ulp :: "real \<Rightarrow> real" where
  "ulp x = 2 powi (binade x - 52)"

definition rd :: "real \<Rightarrow> real" where
  "rd x = (if x = 0 then 0 else of_int (round_even (x / ulp x)) * ulp x)"

text \<open>
  A decimal literal of the source denotes the nearest double: \<^verbatim>\<open>0.35\<close> is \<open>rd 0.35\<close>.
  The literals that are doubles themselves (the integers, \<^verbatim>\<open>0.25\<close>, \<^verbatim>\<open>1.5\<close>, \<^verbatim>\<open>4.5\<close>) are
  written as they are.

  A number is a double or \<open>NaN\<close>; \<open>NaN\<close> is what arithmetic on \<^verbatim>\<open>undefined\<close> yields,
  so it is what a missing field of an object turns into as soon as it is multiplied.
\<close>

datatype jsnum = NaN | Num real

fun jadd :: "jsnum \<Rightarrow> jsnum \<Rightarrow> jsnum" where
  "jadd (Num a) (Num b) = Num (rd (a + b))"
| "jadd _ _ = NaN"

fun jsub :: "jsnum \<Rightarrow> jsnum \<Rightarrow> jsnum" where
  "jsub (Num a) (Num b) = Num (rd (a - b))"
| "jsub _ _ = NaN"

fun jmul :: "jsnum \<Rightarrow> jsnum \<Rightarrow> jsnum" where
  "jmul (Num a) (Num b) = Num (rd (a * b))"
| "jmul _ _ = NaN"

text \<open>
  No division of this program reaches a zero divisor (each one is guarded or divides by
  a non-zero constant or a non-empty length); the zero divisor is mapped to \<open>NaN\<close>.
\<close>

fun jdiv :: "jsnum \<Rightarrow> jsnum \<Rightarrow> jsnum" where
  "jdiv (Num a) (Num b) = (if b = 0 then NaN else Num (rd (a / b)))"
| "jdiv _ _ = NaN"

fun jsqrt :: "jsnum \<Rightarrow> jsnum" where
  "jsqrt (Num a) = (if a < 0 then NaN else Num (rd (sqrt a)))"
| "jsqrt NaN = NaN"

text \<open>
  \<^verbatim>\<open>Math.sqrt\<close> is correctly rounded. A number that arithmetic has produced is
  \<open>NaN\<close> or a double, which rounding leaves as it is: it is \<open>representable\<close>.
\<close>

definition representable :: "jsnum \<Rightarrow> bool" where
  "representable x = (case x of NaN \<Rightarrow> True | Num a \<Rightarrow> rd a = a)"

text \<open>\<^verbatim>\<open>x >= c\<close> and \<^verbatim>\<open>x > c\<close>: every comparison with \<open>NaN\<close> is false.\<close>

fun jge :: "jsnum \<Rightarrow> real \<Rightarrow> bool" where
  "jge (Num a) c = (c \<le> a)"
| "jge NaN c = False"

fun jgt :: "jsnum \<Rightarrow> real \<Rightarrow> bool" where
  "jgt (Num a) c = (c < a)"
| "jgt NaN c = False"

text \<open>
  Reading a property of \<^verbatim>\<open>null\<close> or \<^verbatim>\<open>undefined\<close> throws a \<^verbatim>\<open>TypeError\<close>; it is
  the only exception the scoring functions can raise.
\<close>

datatype error = TypeError

section \<open>Data model\<close>

text \<open>
  The scoring rules of a league. A field that the object does not have reads as
  \<^verbatim>\<open>undefined\<close>: it is \<open>None\<close> here, and \<open>weight\<close> is its value inside a product.
\<close>

record scoring_rules =
  passYards :: "real option"
  passTD :: "real option"
  passInt :: "real option"
  rushYards :: "real option"
  rushTD :: "real option"
  recYards :: "real option"
  reception :: "real option"
  recTD :: "real option"
  fumble :: "real option"
  twoPtConversion :: "real option"

fun weight :: "real option \<Rightarrow> jsnum" where
  "weight None = NaN"
| "weight (Some w) = Num w"

text \<open>
  The props of a player: an object with numeric fields, kept as the list of its own keys
  with their values. \<^verbatim>\<open>Object.keys(props).length === 0\<close> is \<open>ps = []\<close>, a field that
  is not there is \<open>None\<close>, and a number is truthy when it is there and not zero.
\<close>

type_synonym props = "(string \<times> real) list"

definition prop_val :: "props \<Rightarrow> string \<Rightarrow> real option" where
  "prop_val ps k = map_of ps k"

definition truthy :: "real option \<Rightarrow> bool" where
  "truthy v = (case v of None \<Rightarrow> False | Some x \<Rightarrow> x \<noteq> 0)"

text \<open>
  A game line as \<^verbatim>\<open>getWeekLines\<close> builds it (the identifiers and money lines, which the
  scoring code never reads, are left out). \<open>spread\<close> is signed relative to the home team
  and is \<^verbatim>\<open>null\<close> when no book gave one.
\<close>

record implied =
  homeIT :: real
  awayIT :: real

record game_context =
  home_team :: string
  away_team :: string
  spread :: "real option"
  total :: "real option"
  implied_totals :: "implied option"

text \<open>
  The end of \<^verbatim>\<open>getWeekLines\<close>:
  \<^verbatim>\<open>impliedTotals = spread && total ? { homeIT: total/2 - spread/2, awayIT: total/2 + spread/2 } : null\<close>.
\<close>

definition build_line :: "string \<Rightarrow> string \<Rightarrow> real option \<Rightarrow> real option \<Rightarrow> game_context" where
  "build_line homeTeam awayTeam spr tot =
     \<lparr>home_team = homeTeam, away_team = awayTeam, spread = spr, total = tot,
      implied_totals =
        (case spr of
           None \<Rightarrow> None
         | Some s \<Rightarrow>
            (if s = 0 then None
             else
              (case tot of
                 None \<Rightarrow> None
               | Some t \<Rightarrow>
                  (if t = 0 then None
                   else Some \<lparr>homeIT = rd (rd (t / 2) - rd (s / 2)),
                              awayIT = rd (rd (t / 2) + rd (s / 2))\<rparr>))))\<rparr>"

text \<open>\<^verbatim>\<open>null\<close> converts to 0 when it is compared with a number.\<close>

definition spread_num :: "game_context \<Rightarrow> real" where
  "spread_num c = (case spread c of None \<Rightarrow> 0 | Some s \<Rightarrow> s)"

section \<open>Lookup tables\<close>

definition CEILING_WEIGHTS :: "string \<Rightarrow> real option" where
  "CEILING_WEIGHTS = map_of
     [(''RB'', rd 0.8), (''TE'', rd 0.6), (''WR'', rd 0.35), (''QB'', 0), (''K'', 0), (''DEF'', 0)]"

definition FALLBACK_BASELINES :: "string \<Rightarrow> real option" where
  "FALLBACK_BASELINES = map_of
     [(''QB'', 15), (''RB'', 10), (''WR'', 8), (''TE'', 6), (''K'', 8), (''DEF'', 8)]"

text \<open>\<^verbatim>\<open>table[position] || dflt\<close>: a missing entry and a zero entry give the default.\<close>

definition lookup_or :: "(string \<Rightarrow> real option) \<Rightarrow> string \<Rightarrow> real \<Rightarrow> real" where
  "lookup_or table k dflt =
     (case table k of None \<Rightarrow> dflt | Some v \<Rightarrow> if v = 0 then dflt else v)"

section \<open>Fantasy-point estimator\<close>

text \<open>\<^verbatim>\<open>applyFallback(position, teamContext, scoringRules)\<close>\<close>

definition applyFallback :: "string \<Rightarrow> game_context option \<Rightarrow> scoring_rules option \<Rightarrow> real" where
  "applyFallback position teamContext scoringRules =
     (let baseline = lookup_or FALLBACK_BASELINES position 5 in
      case teamContext of
        None \<Rightarrow> baseline
      | Some c \<Rightarrow>
         (case implied_totals c of
            None \<Rightarrow> baseline
          | Some its \<Rightarrow>
             (let it = homeIT its;
                  itBonus = max 0 (rd (rd (it - 21) / 3));
                  scriptBonus =
                    (if position = ''QB'' then (if spread_num c < 0 then 1 else 0)
                     else if position = ''RB'' then (if spread_num c \<le> - 4.5 then 1.5 else 0)
                     else if position = ''WR'' \<or> position = ''TE''
                       then (if spread_num c \<ge> 4.5 then 1 else 0)
                     else 0)
              in rd (rd (baseline + itBonus) + scriptBonus))))"

text \<open>
  One \<^verbatim>\<open>if (props.k) { efp += props.k * scoringRules.f; }\<close> of the estimator. The
  rules are only read when the prop is truthy, and reading them throws when the rules
  object itself is \<^verbatim>\<open>null\<close> or \<^verbatim>\<open>undefined\<close>.
\<close>

definition add_stat ::
    "props \<Rightarrow> scoring_rules option \<Rightarrow> string \<times> (scoring_rules \<Rightarrow> real option) \<Rightarrow>
     error + jsnum \<Rightarrow> error + jsnum" where
  "add_stat ps scoringRules kf acc =
     (case acc of
        Inl e \<Rightarrow> Inl e
      | Inr efp \<Rightarrow>
         (case prop_val ps (fst kf) of
            None \<Rightarrow> Inr efp
          | Some v \<Rightarrow>
             (if v = 0 then Inr efp
              else
               (case scoringRules of
                  None \<Rightarrow> Inl TypeError
                | Some r \<Rightarrow> Inr (jadd efp (jmul (Num v) (weight (snd kf r))))))))"

text \<open>The touchdown weight: \<^verbatim>\<open>recTD\<close> for the pass catchers, \<^verbatim>\<open>rushTD\<close> for the rest.\<close>

definition tdValue :: "string \<Rightarrow> scoring_rules \<Rightarrow> real option" where
  "tdValue position r = (if position = ''WR'' \<or> position = ''TE'' then recTD r else rushTD r)"

text \<open>The seven stat lines of the estimator, in the order of the source: the prop and its weight.\<close>

definition stat_lines :: "string \<Rightarrow> (string \<times> (scoring_rules \<Rightarrow> real option)) list" where
  "stat_lines position =
     [(''pass_yds'', passYards), (''pass_tds'', passTD), (''interceptions'', passInt),
      (''rush_yds'', rushYards), (''rec_yds'', recYards), (''receptions'', reception),
      (''anytime_td_prob'', tdValue position)]"

text \<open>
  \<^verbatim>\<open>expectedFantasyPoints(props, scoringRules, position, teamContext)\<close>; \<open>None\<close> is a
  \<^verbatim>\<open>null\<close> or \<^verbatim>\<open>undefined\<close> argument.
\<close>

definition expectedFantasyPoints ::
    "props option \<Rightarrow> scoring_rules option \<Rightarrow> string \<Rightarrow> game_context option \<Rightarrow> error + jsnum" where
  "expectedFantasyPoints props scoringRules position teamContext =
     (case props of
        None \<Rightarrow> Inr (Num (applyFallback position teamContext scoringRules))
      | Some ps \<Rightarrow>
         (if ps = [] then Inr (Num (applyFallback position teamContext scoringRules))
          else fold (add_stat ps scoringRules) (stat_lines position) (Inr (Num 0))))"

text \<open>\<^verbatim>\<open>applyMultiTDBonus(baseEFP, props, scoringRules, position)\<close>\<close>

definition applyMultiTDBonus ::
    "jsnum \<Rightarrow> props option \<Rightarrow> scoring_rules option \<Rightarrow> string \<Rightarrow> error + jsnum" where
  "applyMultiTDBonus baseEFP props scoringRules position =
     (let w = lookup_or CEILING_WEIGHTS position 0 in
      if w = 0 then Inr (Num 0)
      else
       (case props of
          None \<Rightarrow> Inl TypeError
        | Some ps \<Rightarrow>
           (case prop_val ps ''two_plus_td_prob'' of
              None \<Rightarrow> Inr (Num 0)
            | Some p \<Rightarrow>
               (if p = 0 then Inr (Num 0)
                else
                 (case scoringRules of
                    None \<Rightarrow> Inl TypeError
                  | Some r \<Rightarrow>
                     Inr (jmul (jmul (Num p) (weight (tdValue position r))) (Num w)))))))"

section \<open>Composite score\<close>

text \<open>
  A roster player as \<^verbatim>\<open>getTeamRoster\<close> returns it. \<open>status\<close> is Yahoo's code
  (\<^verbatim>\<open>Q\<close>, \<^verbatim>\<open>D\<close>, \<^verbatim>\<open>O\<close>, \<^verbatim>\<open>IR\<close>, ...) or \<^verbatim>\<open>null\<close>.
\<close>

record player =
  name :: string
  position :: string
  team :: string
  status :: "string option"
  bye_week :: "nat option"
  slot :: string

text \<open>
  The object pushed by the first loop of the handler:
  \<^verbatim>\<open>{...player, props, context, efp, ceiling_bonus, is_bye_week}\<close>. The field \<^verbatim>\<open>context\<close> is
  \<open>pcontext\<close> here, \<^verbatim>\<open>context\<close> being a keyword.
\<close>

record est_player = player +
  props :: props
  pcontext :: "game_context option"
  efp :: jsnum
  ceiling_bonus :: jsnum
  is_bye_week :: bool

text \<open>The same object once \<^verbatim>\<open>score\<close> is set; \<open>tier\<close> is \<open>None\<close> while it is not set.\<close>

record scored_player = est_player +
  score :: jsnum
  tier :: "string option"

text \<open>\<^verbatim>\<open>String.prototype.toUpperCase\<close> on the ASCII letters of a status code.\<close>

definition upper_char :: "char \<Rightarrow> char" where
  "upper_char c =
     (case map_of (zip ''abcdefghijklmnopqrstuvwxyz'' ''ABCDEFGHIJKLMNOPQRSTUVWXYZ'') c of
        None \<Rightarrow> c
      | Some u \<Rightarrow> u)"

definition toUpperCase :: "string \<Rightarrow> string" where
  "toUpperCase s = map upper_char s"

text \<open>\<^verbatim>\<open>calculateInjuryPenalty(status)\<close>; the empty string is falsy like \<^verbatim>\<open>null\<close>.\<close>

definition calculateInjuryPenalty :: "string option \<Rightarrow> real" where
  "calculateInjuryPenalty st =
     (case st of
        None \<Rightarrow> 0
      | Some str \<Rightarrow>
         (if str = [] then 0
          else
           (let s = toUpperCase str in
            if s = ''Q'' then - rd 0.3
            else if s = ''D'' then - rd 0.8
            else if s = ''O'' \<or> s = ''IR'' \<or> s = ''PUP'' \<or> s = ''SUSP'' then - 999
            else 0)))"

text \<open>\<^verbatim>\<open>calculateScriptLean(context, team, threshold)\<close> of \<^verbatim>\<open>ff-odds.mjs\<close>, as the pair \<open>(passLean, runLean)\<close>.\<close>

definition calculateScriptLean :: "game_context \<Rightarrow> string \<Rightarrow> real \<Rightarrow> real \<times> real" where
  "calculateScriptLean c tm threshold =
     (if \<not> truthy (spread c) \<or> implied_totals c = None then (0, 0)
      else
       (let isHome = (tm = home_team c);
            teamSpread = (if isHome then spread_num c else - spread_num c);
            passLean = (if teamSpread \<ge> threshold then 1 else 0);
            runLean = (if teamSpread \<le> - threshold then 1 else 0)
        in (passLean, runLean)))"

text \<open>\<^verbatim>\<open>calculateScriptBonus(position, context)\<close>: the lean is asked for \<^verbatim>\<open>context.home_team\<close>.\<close>

definition calculateScriptBonus :: "string \<Rightarrow> game_context option \<Rightarrow> real" where
  "calculateScriptBonus pos cx =
     (case cx of
        None \<Rightarrow> 0
      | Some c \<Rightarrow>
         (if \<not> truthy (spread c) then 0
          else
           (let lean = calculateScriptLean c (home_team c) 4.5;
                passLean = fst lean;
                runLean = snd lean
            in if pos = ''RB'' then rd (rd 0.6 * runLean)
               else if pos = ''WR'' \<or> pos = ''TE'' then rd (rd 0.6 * passLean)
               else if pos = ''QB'' then (if spread_num c < 0 then rd 0.4 else 0)
               else 0)))"

text \<open>\<^verbatim>\<open>calculateITBonus(context)\<close>\<close>

definition calculateITBonus :: "game_context option \<Rightarrow> real" where
  "calculateITBonus cx =
     (case cx of
        None \<Rightarrow> 0
      | Some c \<Rightarrow>
         (case implied_totals c of None \<Rightarrow> 0 | Some its \<Rightarrow> rd (rd (homeIT its - 21) / 7)))"

text \<open>
  \<^verbatim>\<open>calculateZScore(value, dataset)\<close>; \<^verbatim>\<open>reduce\<close> is a left fold, and
  \<^verbatim>\<open>Math.pow(d, 2)\<close> is the rounded square of \<open>d\<close>.
\<close>

definition calculateZScore :: "jsnum \<Rightarrow> jsnum list \<Rightarrow> jsnum" where
  "calculateZScore v dataset =
     (if length dataset = 0 then Num 0
      else
       (let mean = jdiv (foldl (\<lambda>sum x. jadd sum x) (Num 0) dataset) (Num (real (length dataset)));
            variance = jdiv (foldl (\<lambda>sum x. jadd sum (jmul (jsub x mean) (jsub x mean))) (Num 0) dataset)
                            (Num (real (length dataset)));
            stdDev = jsqrt variance
        in if stdDev = Num 0 then Num 0 else jdiv (jsub v mean) stdDev))"

text \<open>
  \<^verbatim>\<open>calculateSitStartScore(efp, context, player, scoringRules, allPlayers)\<close>. The bye
  penalty of the source is \<^verbatim>\<open>0\<close> on both branches.
\<close>

definition calculateSitStartScore ::
    "jsnum \<Rightarrow> game_context option \<Rightarrow> 'a est_player_scheme \<Rightarrow> scoring_rules option \<Rightarrow>
     'b est_player_scheme list \<Rightarrow> jsnum" where
  "calculateSitStartScore e cx pl scoringRules allPlayers =
     (case cx of
        None \<Rightarrow> Num 0
      | Some c \<Rightarrow>
         (let positionPlayers = filter (\<lambda>p. position p = position pl) allPlayers;
              zScore = calculateZScore e (map efp positionPlayers);
              scriptBonus = calculateScriptBonus (position pl) cx;
              itBonus = calculateITBonus cx;
              injuryPenalty = calculateInjuryPenalty (status pl);
              byePenalty = 0
          in jadd (jadd (jadd (jadd zScore (Num (rd (rd 0.35 * scriptBonus))))
                              (Num (rd (0.25 * itBonus))))
                        (Num (rd (rd 0.20 * injuryPenalty))))
                  (Num byePenalty)))"

section \<open>Tiers\<close>

definition TIER_S :: real where "TIER_S = rd 1.2"
definition TIER_A :: real where "TIER_A = rd 0.6"
definition TIER_B :: real where "TIER_B = - rd 0.2"
definition TIER_C :: real where "TIER_C = - rd 0.8"

definition tier_of :: "jsnum \<Rightarrow> string" where
  "tier_of sc =
     (if jge sc TIER_S then ''S''
      else if jge sc TIER_A then ''A''
      else if jge sc TIER_B then ''B''
      else if jge sc TIER_C then ''C''
      else ''D'')"

text \<open>\<^verbatim>\<open>assignTiers(players)\<close>: every player gets \<^verbatim>\<open>{ ...player, tier }\<close>.\<close>

definition assignTiers :: "scored_player list \<Rightarrow> scored_player list" where
  "assignTiers players = map (\<lambda>p. p\<lparr>tier := Some (tier_of (score p))\<rparr>) players"

section \<open>Lineup\<close>

text \<open>
  \<^verbatim>\<open>Array.prototype.sort(cmp)\<close> puts \<open>x\<close> after \<open>y\<close> when \<open>cmp x y > 0\<close> and is stable.
  When the comparator is consistent on the array the result is determined, and it is the
  one of the stable insertion sort \<open>stable_sort\<close>. The two comparators of this program
  are differences of scores: they are consistent exactly when they never return \<open>NaN\<close>
  on the array, that is when no score is \<open>NaN\<close>. On an array with a \<open>NaN\<close> score the
  order is left to the implementation, which returns some permutation of the array:
  that choice is the parameter \<open>engine\<close> of \<open>js_sort\<close>, an arbitrary function whose
  result is taken when it is a permutation of the array. What is proved about \<open>js_sort\<close>
  is proved for every \<open>engine\<close>.
\<close>

fun insert_by :: "('a \<Rightarrow> 'a \<Rightarrow> jsnum) \<Rightarrow> 'a \<Rightarrow> 'a list \<Rightarrow> 'a list" where
  "insert_by cmp x [] = [x]"
| "insert_by cmp x (y # ys) = (if jgt (cmp x y) 0 then y # insert_by cmp x ys else x # y # ys)"

definition stable_sort :: "('a \<Rightarrow> 'a \<Rightarrow> jsnum) \<Rightarrow> 'a list \<Rightarrow> 'a list" where
  "stable_sort cmp xs = foldr (insert_by cmp) xs []"

definition consistent :: "('a \<Rightarrow> 'a \<Rightarrow> jsnum) \<Rightarrow> 'a list \<Rightarrow> bool" where
  "consistent cmp xs = list_all (\<lambda>a. list_all (\<lambda>b. cmp a b \<noteq> NaN) xs) xs"

type_synonym 'a engine = "('a \<Rightarrow> 'a \<Rightarrow> jsnum) \<Rightarrow> 'a list \<Rightarrow> 'a list"

definition js_sort :: "'a engine \<Rightarrow> ('a \<Rightarrow> 'a \<Rightarrow> jsnum) \<Rightarrow> 'a list \<Rightarrow> 'a list" where
  "js_sort engine cmp xs =
     (if consistent cmp xs then stable_sort cmp xs
      else if mset (engine cmp xs) = mset xs then engine cmp xs
      else xs)"

text \<open>The two comparators of the source: \<^verbatim>\<open>(a, b) => b.score - a.score\<close> and its converse.\<close>

definition by_score_desc :: "scored_player \<Rightarrow> scored_player \<Rightarrow> jsnum" where
  "by_score_desc a b = jsub (score b) (score a)"

definition by_score_asc :: "scored_player \<Rightarrow> scored_player \<Rightarrow> jsnum" where
  "by_score_asc a b = jsub (score a) (score b)"

text \<open>
  The slot requirements are a dictionary from slot label to a count of slots;
  \<^verbatim>\<open>filled\<close> has the same keys. The body of the loop of \<^verbatim>\<open>fillLineup\<close> on the state
  \<open>(starters, bench, filled)\<close>: \<^verbatim>\<open>filled[pos] < needed\<close> is false when \<^verbatim>\<open>filled[pos]\<close> is
  \<^verbatim>\<open>undefined\<close>.
\<close>

type_synonym counts = "string \<Rightarrow> nat option"

definition fill_step ::
    "counts \<Rightarrow> scored_player list \<times> scored_player list \<times> counts \<Rightarrow> scored_player \<Rightarrow>
     scored_player list \<times> scored_player list \<times> counts" where
  "fill_step positionCounts st pl =
     (let starters = fst st; bench = fst (snd st); filled = snd (snd st);
          pos = position pl;
          needed = (case positionCounts pos of None \<Rightarrow> 0 | Some n \<Rightarrow> n)
      in case filled pos of
           None \<Rightarrow> (starters, bench @ [pl\<lparr>slot := ''BN''\<rparr>], filled)
         | Some f \<Rightarrow>
            (if f < needed then (starters @ [pl\<lparr>slot := pos\<rparr>], bench, filled(pos \<mapsto> f + 1))
             else (starters, bench @ [pl\<lparr>slot := ''BN''\<rparr>], filled)))"

text \<open>\<^verbatim>\<open>fillLineup(scoredPlayers, positionCounts)\<close>, returning \<open>(starters, bench)\<close>.\<close>

definition fillLineup ::
    "scored_player engine \<Rightarrow> scored_player list \<Rightarrow> counts \<Rightarrow>
     scored_player list \<times> scored_player list" where
  "fillLineup engine scoredPlayers positionCounts =
     (let sorted = js_sort engine by_score_desc scoredPlayers;
          filled = (\<lambda>pos. map_option (\<lambda>n. 0) (positionCounts pos));
          st = foldl (fill_step positionCounts) ([], [], filled) sorted
      in (fst st, fst (snd st)))"

section \<open>Flex swaps\<close>

text \<open>
  A suggestion, with \<open>out_name\<close> and \<open>in_name\<close> for the fields \<^verbatim>\<open>out\<close> and \<^verbatim>\<open>in\<close>. The
  source stores the improvement as the string \<^verbatim>\<open>toFixed(1)\<close> of the score difference;
  the difference itself is kept here.
\<close>

record swap =
  action :: string
  out_name :: string
  in_name :: string
  improvement :: jsnum

definition flex_eligible :: "scored_player \<Rightarrow> bool" where
  "flex_eligible p = (position p = ''RB'' \<or> position p = ''WR'' \<or> position p = ''TE'')"

text \<open>\<^verbatim>\<open>tryFlexSwaps(starters, bench)\<close>\<close>

definition tryFlexSwaps ::
    "scored_player engine \<Rightarrow> scored_player list \<Rightarrow> scored_player list \<Rightarrow> swap list" where
  "tryFlexSwaps engine starters bench =
     (let flexStarters =
            js_sort engine by_score_asc
              (filter (\<lambda>p. flex_eligible p \<and> slot p = ''FLEX'') starters);
          flexBench = js_sort engine by_score_desc (filter flex_eligible bench);
          swaps =
            concat (map (\<lambda>benchPlayer.
              map (\<lambda>starterPlayer.
                     \<lparr>action = ''swap'', out_name = name starterPlayer, in_name = name benchPlayer,
                      improvement = jsub (score benchPlayer) (score starterPlayer)\<rparr>)
                  (filter (\<lambda>starterPlayer. jgt (jsub (score benchPlayer) (score starterPlayer)) 1.0)
                          flexStarters))
              flexBench)
      in take 3 swaps)"

section \<open>The pipeline of the handler\<close>

text \<open>\<^verbatim>\<open>getGameContext(lines, team)\<close>: the first game of the team, or \<^verbatim>\<open>null\<close>.\<close>

fun getGameContext :: "game_context list \<Rightarrow> string \<Rightarrow> game_context option" where
  "getGameContext [] tm = None"
| "getGameContext (game # lines) tm =
     (if home_team game = tm \<or> away_team game = tm then Some game else getGameContext lines tm)"

text \<open>
  The body of the first loop of the handler (step 8) for one roster player;
  \<^verbatim>\<open>allProps[player.name] || {}\<close> is the entry of the player or the empty object.
\<close>

definition estimate_player ::
    "game_context list \<Rightarrow> (string \<times> props) list \<Rightarrow> scoring_rules option \<Rightarrow> player \<Rightarrow>
     error + est_player" where
  "estimate_player lines allProps scoringRules pl =
     (case getGameContext lines (team pl) of
        None \<Rightarrow>
          Inr (player.extend pl
                 (est_player.fields [] None (Num 0) (Num 0) True))
      | Some gameContext \<Rightarrow>
         (let ps = (case map_of allProps (name pl) of None \<Rightarrow> [] | Some x \<Rightarrow> x) in
          case expectedFantasyPoints (Some ps) scoringRules (position pl) (Some gameContext) of
            Inl e \<Rightarrow> Inl e
          | Inr e \<Rightarrow>
             (case applyMultiTDBonus e (Some ps) scoringRules (position pl) of
                Inl err \<Rightarrow> Inl err
              | Inr ceilingBonus \<Rightarrow>
                 Inr (player.extend pl
                        (est_player.fields ps (Some gameContext) (jadd e ceilingBonus)
                           ceilingBonus False)))))"

text \<open>The loop itself: an exception leaves it at once.\<close>

fun estimate_all ::
    "game_context list \<Rightarrow> (string \<times> props) list \<Rightarrow> scoring_rules option \<Rightarrow> player list \<Rightarrow>
     error + est_player list" where
  "estimate_all lines allProps scoringRules [] = Inr []"
| "estimate_all lines allProps scoringRules (pl # roster) =
     (case estimate_player lines allProps scoringRules pl of
        Inl e \<Rightarrow> Inl e
      | Inr x \<Rightarrow>
         (case estimate_all lines allProps scoringRules roster of
            Inl e \<Rightarrow> Inl e
          | Inr xs \<Rightarrow> Inr (x # xs)))"

text \<open>
  The body of the second loop: a bye-week player gets score 0 and tier \<^verbatim>\<open>BYE\<close>, the
  others are scored against the players that are not on bye.
\<close>

definition score_player :: "scoring_rules option \<Rightarrow> est_player list \<Rightarrow> est_player \<Rightarrow> scored_player" where
  "score_player scoringRules scoredPlayers pl =
     (if is_bye_week pl
      then est_player.extend pl (scored_player.fields (Num 0) (Some ''BYE''))
      else est_player.extend pl
             (scored_player.fields
                (calculateSitStartScore (efp pl) (pcontext pl) pl scoringRules
                   (filter (\<lambda>p. \<not> is_bye_week p) scoredPlayers))
                None))"

text \<open>
  Steps 8 to the flex suggestions of the handler, from the data it has fetched:
  the result is \<open>(starters, bench, flex_options)\<close>, or the exception that the handler
  turns into a 500 response. \<^verbatim>\<open>generateReasons\<close> only adds the \<^verbatim>\<open>reasons\<close> of a player
  and is left out, as is the rounding of \<^verbatim>\<open>formatPlayer\<close>, which copies \<^verbatim>\<open>tier\<close> and
  rounds \<^verbatim>\<open>efp\<close> and \<^verbatim>\<open>score\<close> to one decimal.
\<close>

definition run_pipeline ::
    "scored_player engine \<Rightarrow> game_context list \<Rightarrow> (string \<times> props) list \<Rightarrow>
     scoring_rules option \<Rightarrow> counts \<Rightarrow> player list \<Rightarrow>
     error + (scored_player list \<times> scored_player list \<times> swap list)" where
  "run_pipeline engine lines allProps scoringRules positionCounts roster =
     (case estimate_all lines allProps scoringRules roster of
        Inl e \<Rightarrow> Inl e
      | Inr scoredPlayers \<Rightarrow>
         (let scored = map (score_player scoringRules scoredPlayers) scoredPlayers;
              tieredPlayers = assignTiers scored;
              lineup = fillLineup engine tieredPlayers positionCounts;
              flexOptions = tryFlexSwaps engine (fst lineup) (snd lineup)
          in Inr (fst lineup, snd lineup, flexOptions)))"

section \<open>The specification's formulas\<close>

text \<open>
  The estimator in the words of the specification: the sum, over the seven stat lines
  in their order, of the prop times its weight, where a prop that is absent (or zero)
  contributes zero.
\<close>

definition contribution :: "props \<Rightarrow> string \<Rightarrow> real option \<Rightarrow> jsnum" where
  "contribution ps k w =
     (case prop_val ps k of
        None \<Rightarrow> Num 0
      | Some v \<Rightarrow> if v = 0 then Num 0 else jmul (Num v) (weight w))"

definition weighted_sum :: "props \<Rightarrow> scoring_rules \<Rightarrow> string \<Rightarrow> jsnum" where
  "weighted_sum ps r pos =
     foldl jadd (Num 0)
       [contribution ps ''pass_yds'' (passYards r),
        contribution ps ''pass_tds'' (passTD r),
        contribution ps ''interceptions'' (passInt r),
        contribution ps ''rush_yds'' (rushYards r),
        contribution ps ''rec_yds'' (recYards r),
        contribution ps ''receptions'' (reception r),
        contribution ps ''anytime_td_prob''
          (if pos = ''WR'' \<or> pos = ''TE'' then recTD r else rushTD r)]"

text \<open>The rules and props of the estimator's example scenario.\<close>

definition example_rules :: scoring_rules where
  "example_rules =
     \<lparr>passYards = Some (rd 0.04), passTD = Some 4, passInt = Some (- 2), rushYards = None,
      rushTD = None, recYards = None, reception = Some 1, recTD = Some 6, fumble = None,
      twoPtConversion = None\<rparr>"

definition example_props :: props where
  "example_props = [(''pass_yds'', 300), (''pass_tds'', 2), (''interceptions'', 1)]"

text \<open>The defaults of \<^verbatim>\<open>getLeagueSettings\<close>: a record with every field.\<close>

definition default_rules :: scoring_rules where
  "default_rules =
     \<lparr>passYards = Some (rd 0.04), passTD = Some 4, passInt = Some (- 2),
      rushYards = Some (rd 0.1), rushTD = Some 6, recYards = Some (rd 0.1),
      reception = Some 0, recTD = Some 6, fumble = Some (- 2), twoPtConversion = Some 2\<rparr>"

text \<open>
  The fallback estimate in the words of the specification: the table of baselines, the
  script bonus of the fallback, judged on the spread of the player's own team (the
  spread of the line for the home team, its opposite for the away team), and the
  formula \<open>baseline + max(0, (h - 21)/3) + scriptBonus\<close> on a home implied total \<open>h\<close>.
\<close>

definition spec_baseline :: "string \<Rightarrow> real" where
  "spec_baseline pos =
     (if pos = ''QB'' then 15 else if pos = ''RB'' then 10 else if pos = ''WR'' then 8
      else if pos = ''TE'' then 6 else if pos = ''K'' then 8 else if pos = ''DEF'' then 8
      else 5)"

definition own_spread :: "game_context \<Rightarrow> string \<Rightarrow> real" where
  "own_spread c tm = (if tm = home_team c then spread_num c else - spread_num c)"

definition fallback_script :: "string \<Rightarrow> real \<Rightarrow> real" where
  "fallback_script pos teamSpread =
     (if pos = ''QB'' \<and> teamSpread < 0 then 1
      else if pos = ''RB'' \<and> teamSpread \<le> - 4.5 then 1.5
      else if (pos = ''WR'' \<or> pos = ''TE'') \<and> teamSpread \<ge> 4.5 then 1
      else 0)"

definition claimed_fallback :: "string \<Rightarrow> string \<Rightarrow> game_context \<Rightarrow> real \<Rightarrow> real" where
  "claimed_fallback pos tm c h =
     rd (rd (spec_baseline pos + max 0 (rd (rd (h - 21) / 3))) + fallback_script pos (own_spread c tm))"

text \<open>
  Four game lines: the home team (KC) favoured by 6 with a home implied total of 24, the
  away team (KC) favoured by 6, a line on which the home team is favoured by 6 and no
  book gave a total, and the home team favoured by 14 with a total of 53.
\<close>

definition home_favorite_game :: game_context where
  "home_favorite_game = build_line ''KC'' ''DEN'' (Some (- 6)) (Some 42)"

definition away_favorite_game :: game_context where
  "away_favorite_game = build_line ''DEN'' ''KC'' (Some 6) (Some 44)"

definition no_total_game :: game_context where
  "no_total_game = build_line ''KC'' ''DEN'' (Some (- 6)) None"

definition blowout_game :: game_context where
  "blowout_game = build_line ''KC'' ''DEN'' (Some (- 14)) (Some 53)"

text \<open>The ceiling weights in the words of the specification, and rules with a negative touchdown weight.\<close>

definition position_weight :: "string \<Rightarrow> real" where
  "position_weight pos =
     (if pos = ''RB'' then rd 0.8 else if pos = ''TE'' then rd 0.6 else if pos = ''WR'' then rd 0.35
      else 0)"

definition negative_td_rules :: scoring_rules where
  "negative_td_rules = default_rules\<lparr>rushTD := Some (- 6)\<rparr>"

text \<open>
  The population statistics of the specification, on real numbers, and the cohort of a
  player: the \<^verbatim>\<open>efp\<close> of the players of the same position.
\<close>

definition mean :: "real list \<Rightarrow> real" where
  "mean xs = sum_list xs / real (length xs)"

definition pop_stddev :: "real list \<Rightarrow> real" where
  "pop_stddev xs = sqrt ((\<Sum>x\<leftarrow>xs. (x - mean xs)\<^sup>2) / real (length xs))"

definition z_score :: "real \<Rightarrow> real list \<Rightarrow> real" where
  "z_score v xs = (if xs = [] \<or> pop_stddev xs = 0 then 0 else (v - mean xs) / pop_stddev xs)"

definition cohort :: "'a est_player_scheme \<Rightarrow> 'b est_player_scheme list \<Rightarrow> jsnum list" where
  "cohort pl allPlayers = map efp (filter (\<lambda>p. position p = position pl) allPlayers)"

text \<open>
  Three wide receivers of the home team, without props, and the double
  \<open>12.166666666666668\<close>, which is the estimate of each of them on the line where the
  home team is favoured by 14.
\<close>

definition three_receivers :: "player list" where
  "three_receivers =
     [\<lparr>name = ''w1'', position = ''WR'', team = ''KC'', status = None, bye_week = Some 6,
       slot = ''WR''\<rparr>,
      \<lparr>name = ''w2'', position = ''WR'', team = ''KC'', status = None, bye_week = Some 6,
       slot = ''WR''\<rparr>,
      \<lparr>name = ''w3'', position = ''WR'', team = ''KC'', status = None, bye_week = Some 6,
       slot = ''BN''\<rparr>]"

definition receiver_efp :: real where
  "receiver_efp = 3424612216646315 / 281474976710656"

text \<open>
  The injury penalties by status code, and a running back who is out (status \<^verbatim>\<open>O\<close>),
  estimated in the game where the home team is favoured by 6 and scored alone.
\<close>

definition injury_table :: "string \<Rightarrow> real" where
  "injury_table code =
     (if code = ''Q'' then - rd 0.3
      else if code = ''D'' then - rd 0.8
      else if code = ''O'' \<or> code = ''IR'' \<or> code = ''PUP'' \<or> code = ''SUSP'' then - 999
      else 0)"

definition out_est :: est_player where
  "out_est = player.extend
     \<lparr>name = ''A'', position = ''RB'', team = ''KC'', status = Some ''O'', bye_week = None,
      slot = ''RB''\<rparr>
     (est_player.fields [] (Some home_favorite_game) (Num 12.5) (Num 0) False)"

definition out_scored :: scored_player where
  "out_scored = score_player (Some default_rules) [out_est] out_est"

text \<open>
  For the lineup: the count a slot map supplies for a label (none when the label is not
  a key), the room left in a slot given the \<^verbatim>\<open>filled\<close> counters, and the score of a
  player as a real number when it is one.
\<close>

definition needed :: "counts \<Rightarrow> string \<Rightarrow> nat" where
  "needed positionCounts pos = (case positionCounts pos of None \<Rightarrow> 0 | Some n \<Rightarrow> n)"

definition room :: "counts \<Rightarrow> counts \<Rightarrow> string \<Rightarrow> nat" where
  "room positionCounts filled pos =
     (case filled pos of None \<Rightarrow> 0 | Some f \<Rightarrow> needed positionCounts pos - f)"

definition score_num :: "scored_player \<Rightarrow> real" where
  "score_num p = (case score p of NaN \<Rightarrow> 0 | Num r \<Rightarrow> r)"

definition numeric :: "scored_player \<Rightarrow> bool" where
  "numeric p = (score p \<noteq> NaN)"

text \<open>
  Four scored players (two of them tied at score 2) and the slot requirements of a
  league with one FLEX slot.
\<close>

definition mk_scored :: "string \<Rightarrow> string \<Rightarrow> real \<Rightarrow> scored_player" where
  "mk_scored nm pos sc =
     \<lparr>name = nm, position = pos, team = ''KC'', status = None, bye_week = None, slot = ''BN'',
      props = [], pcontext = Some home_favorite_game, efp = Num 0, ceiling_bonus = Num 0,
      is_bye_week = False, score = Num sc, tier = Some (tier_of (Num sc))\<rparr>"

definition example_scored :: "scored_player list" where
  "example_scored =
     [mk_scored ''a'' ''RB'' 1, mk_scored ''b'' ''RB'' 3, mk_scored ''c'' ''WR'' 2,
      mk_scored ''d'' ''RB'' 2]"

text \<open>
  An engine for the examples: it reverses every array that it is free to order.
\<close>

definition reversing_engine :: "scored_player engine" where
  "reversing_engine cmp xs = rev xs"

definition example_counts :: counts where
  "example_counts =
     map_of [(''QB'', 1), (''RB'', 2), (''WR'', 2), (''TE'', 1), (''FLEX'', 1), (''K'', 1), (''DEF'', 1)]"

text \<open>
  Rosters for the pipeline: a quarterback whose team (SF) has no game next to a running
  back of the home team, and a lone quarterback of the home team; and the default rules
  without their \<^verbatim>\<open>passTD\<close> field.
\<close>

definition bye_roster :: "player list" where
  "bye_roster =
     [\<lparr>name = ''Q'', position = ''QB'', team = ''SF'', status = Some ''O'', bye_week = Some 9,
       slot = ''QB''\<rparr>,
      \<lparr>name = ''R'', position = ''RB'', team = ''KC'', status = None, bye_week = Some 6,
       slot = ''RB''\<rparr>]"

definition rules_without_passTD :: scoring_rules where
  "rules_without_passTD = default_rules\<lparr>passTD := None\<rparr>"

definition qb_roster :: "player list" where
  "qb_roster =
     [\<lparr>name = ''Q'', position = ''QB'', team = ''KC'', status = None, bye_week = Some 6,
       slot = ''QB''\<rparr>]"

section \<open>Rounding\<close>

text \<open>
  \<open>round_even\<close> rounds to the nearest integer, a tie to the even one; it is monotone
  and odd.
\<close>

lemma round_even_cases: "round_even y = \<lfloor>y\<rfloor> \<or> round_even y = \<lfloor>y\<rfloor> + 1"
  by (simp add: round_even_def Let_def)

lemma round_even_of_int: "round_even (of_int n) = n"
  by (simp add: round_even_def Let_def)

lemma round_even_near:
  assumes "\<bar>y - of_int n\<bar> < 1 / 2"
  shows "round_even y = n"
proof -
  consider "of_int n \<le> y" | "y < of_int n" by linarith
  then show ?thesis
  proof cases
    case 1
    then have f: "\<lfloor>y\<rfloor> = n" using assms by (intro floor_unique) linarith+
    show ?thesis using assms 1 by (simp add: round_even_def Let_def f)
  next
    case 2
    then have f: "\<lfloor>y\<rfloor> = n - 1" using assms by (intro floor_unique) (simp; linarith)+
    show ?thesis using assms 2 by (simp add: round_even_def Let_def f)
  qed
qed

lemma round_even_tie_up:
  assumes "even n"
  shows "round_even (of_int n - 1 / 2) = n"
proof -
  have f: "\<lfloor>real_of_int n - 1 / 2\<rfloor> = n - 1" by (intro floor_unique) simp_all
  show ?thesis using assms by (simp add: round_even_def Let_def f)
qed

lemma round_even_tie_down:
  assumes "even n"
  shows "round_even (of_int n + 1 / 2) = n"
proof -
  have f: "\<lfloor>real_of_int n + 1 / 2\<rfloor> = n" by (intro floor_unique) simp_all
  show ?thesis using assms by (simp add: round_even_def Let_def f)
qed

lemma round_even_mono:
  assumes "y \<le> z"
  shows "round_even y \<le> round_even z"
proof -
  have fl: "\<lfloor>y\<rfloor> \<le> \<lfloor>z\<rfloor>" using assms by (rule floor_mono)
  show ?thesis
  proof (cases "\<lfloor>y\<rfloor> = \<lfloor>z\<rfloor>")
    case True
    then show ?thesis using assms by (auto simp: round_even_def Let_def)
  next
    case False
    then have "\<lfloor>y\<rfloor> + 1 \<le> \<lfloor>z\<rfloor>" using fl by linarith
    moreover have "round_even y \<le> \<lfloor>y\<rfloor> + 1" using round_even_cases [of y] by linarith
    moreover have "\<lfloor>z\<rfloor> \<le> round_even z" using round_even_cases [of z] by linarith
    ultimately show ?thesis by linarith
  qed
qed

lemma round_even_minus: "round_even (- y) = - round_even y"
proof (cases "y \<in> \<int>")
  case True
  then obtain n where "y = of_int n" by (auto elim: Ints_cases)
  then show ?thesis using round_even_of_int [of n] round_even_of_int [of "- n"] by simp
next
  case False
  then have ne: "of_int \<lfloor>y\<rfloor> \<noteq> y" by (metis Ints_of_int)
  then have lt: "of_int \<lfloor>y\<rfloor> < y" using of_int_floor_le [of y] by linarith
  have f: "\<lfloor>- y\<rfloor> = - \<lfloor>y\<rfloor> - 1"
    using lt floor_correct [of y] by (intro floor_unique) (simp; linarith)+
  show ?thesis
    using lt by (auto simp: round_even_def Let_def f)
qed

lemma binade_unique:
  assumes "2 powi e \<le> \<bar>x\<bar>" "\<bar>x\<bar> < 2 powi (e + 1)"
  shows "binade x = e"
proof -
  have pos: "0 < \<bar>x\<bar>" using assms(1) zero_less_power_int [of "2::real" e] by linarith
  have "(2::real) powr real_of_int e = 2 powi e" "(2::real) powr (real_of_int e + 1) = 2 powi (e + 1)"
    using powr_real_of_int' [of "2::real" e] powr_real_of_int' [of "2::real" "e + 1"] by simp_all
  then show ?thesis
    unfolding binade_def using assms pos by (simp add: floor_log_eq_powr_iff)
qed

lemma binade_bounds:
  assumes "x \<noteq> 0"
  shows "2 powi binade x \<le> \<bar>x\<bar>" "\<bar>x\<bar> < 2 powi (binade x + 1)"
proof -
  have pos: "0 < \<bar>x\<bar>" using assms by simp
  have p: "(2::real) powr real_of_int (binade x) = 2 powi binade x"
    "(2::real) powr (real_of_int (binade x) + 1) = 2 powi (binade x + 1)"
    using powr_real_of_int' [of "2::real" "binade x"] powr_real_of_int' [of "2::real" "binade x + 1"]
    by simp_all
  have "2 powr real_of_int (binade x) \<le> \<bar>x\<bar> \<and> \<bar>x\<bar> < 2 powr (real_of_int (binade x) + 1)"
    using floor_log_eq_powr_iff [of "\<bar>x\<bar>" 2 "binade x"] pos by (simp add: binade_def)
  then show "2 powi binade x \<le> \<bar>x\<bar>" "\<bar>x\<bar> < 2 powi (binade x + 1)"
    using p by simp_all
qed

lemma binade_minus: "binade (- x) = binade x"
  by (simp add: binade_def)

lemma ulp_pos: "0 < ulp x"
  by (simp add: ulp_def)

lemma ulp_minus: "ulp (- x) = ulp x"
  by (simp add: ulp_def binade_minus)

lemma ulp_times: "ulp x * 2 ^ 52 = 2 powi binade x" "ulp x * 2 ^ 53 = 2 powi (binade x + 1)"
proof -
  have "(2::real) powi (binade x - 52) * 2 powi 52 = 2 powi (binade x - 52 + 52)"
    by (rule power_int_add [symmetric]) simp
  then show "ulp x * 2 ^ 52 = 2 powi binade x" by (simp add: ulp_def)
  have "(2::real) powi (binade x - 52) * 2 powi 53 = 2 powi (binade x - 52 + 53)"
    by (rule power_int_add [symmetric]) simp
  moreover have "binade x - 52 + 53 = binade x + 1" by simp
  ultimately show "ulp x * 2 ^ 53 = 2 powi (binade x + 1)" by (simp add: ulp_def)
qed

lemma rd_zero: "rd 0 = 0"
  by (simp add: rd_def)

lemma rd_minus: "rd (- x) = - rd x"
  by (simp add: rd_def ulp_minus round_even_minus)

lemma rd_eval:
  assumes "2 powi e \<le> \<bar>x\<bar>" "\<bar>x\<bar> < 2 powi (e + 1)"
  shows "rd x = of_int (round_even (x / 2 powi (e - 52))) * 2 powi (e - 52)"
proof -
  have "0 < (2::real) powi e" by simp
  then have "x \<noteq> 0" using assms(1) by linarith
  moreover have "ulp x = 2 powi (e - 52)" using binade_unique [OF assms] by (simp add: ulp_def)
  ultimately show ?thesis by (simp add: rd_def)
qed

lemma rd_near:
  assumes "2 powi e \<le> \<bar>x\<bar>" "\<bar>x\<bar> < 2 powi (e + 1)"
    and "\<bar>x - of_int n * 2 powi (e - 52)\<bar> < 2 powi (e - 52) / 2"
  shows "rd x = of_int n * 2 powi (e - 52)"
proof -
  define q :: real where "q = 2 powi (e - 52)"
  have q: "0 < q" by (simp add: q_def)
  have "\<bar>x / q - of_int n\<bar> = \<bar>x - of_int n * q\<bar> / q"
    using q by (simp add: field_simps abs_if)
  also have "\<dots> < 1 / 2" using assms(3) q by (simp add: field_simps flip: q_def)
  finally have "round_even (x / q) = n" by (rule round_even_near)
  then show ?thesis using rd_eval [OF assms(1,2)] by (simp flip: q_def)
qed

lemma rd_tie:
  assumes "2 powi e \<le> \<bar>x\<bar>" "\<bar>x\<bar> < 2 powi (e + 1)"
    and "x = (of_int n + 1 / 2) * 2 powi (e - 52) \<or> x = (of_int n - 1 / 2) * 2 powi (e - 52)"
    and "even n"
  shows "rd x = of_int n * 2 powi (e - 52)"
proof -
  define q :: real where "q = 2 powi (e - 52)"
  have q: "q \<noteq> 0" by (simp add: q_def)
  have "x / q = of_int n + 1 / 2 \<or> x / q = of_int n - 1 / 2"
    using assms(3) q by (auto simp flip: q_def)
  then have "round_even (x / q) = n"
    using round_even_tie_up [OF assms(4)] round_even_tie_down [OF assms(4)] by auto
  then show ?thesis using rd_eval [OF assms(1,2)] by (simp flip: q_def)
qed

lemma rd_fixed:
  assumes "x / ulp x \<in> \<int>"
  shows "rd x = x"
proof (cases "x = 0")
  case True
  then show ?thesis by (simp add: rd_def)
next
  case False
  obtain n where n: "x / ulp x = of_int n" using assms by (auto elim: Ints_cases)
  have "round_even (x / ulp x) = n" by (simp only: n round_even_of_int)
  moreover have "of_int n * ulp x = x" using n ulp_pos [of x] by (simp add: field_simps)
  ultimately show ?thesis using False by (simp add: rd_def)
qed

lemma scaled_bounds:
  assumes "0 < x"
  shows "2 ^ 52 \<le> x / ulp x" "x / ulp x < 2 ^ 53"
proof -
  have b: "2 powi binade x \<le> x" "x < 2 powi (binade x + 1)"
    using binade_bounds [of x] assms by simp_all
  show "2 ^ 52 \<le> x / ulp x"
    using b(1) ulp_pos [of x] ulp_times(1) [of x] by (simp add: field_simps)
  show "x / ulp x < 2 ^ 53"
    using b(2) ulp_pos [of x] ulp_times(2) [of x] by (simp add: field_simps)
qed

lemma round_even_scaled:
  assumes "0 < x"
  shows "2 ^ 52 \<le> round_even (x / ulp x)" "round_even (x / ulp x) \<le> 2 ^ 53"
proof -
  have "round_even (of_int (2 ^ 52)) \<le> round_even (x / ulp x)"
    using scaled_bounds(1) [OF assms] by (intro round_even_mono) simp
  then show "2 ^ 52 \<le> round_even (x / ulp x)" by (simp only: round_even_of_int)
  have "round_even (x / ulp x) \<le> round_even (of_int (2 ^ 53))"
    using scaled_bounds(2) [OF assms] by (intro round_even_mono) simp
  then show "round_even (x / ulp x) \<le> 2 ^ 53" by (simp only: round_even_of_int)
qed

lemma rd_binade:
  assumes "0 < x"
  shows "2 powi binade x \<le> rd x" "rd x \<le> 2 powi (binade x + 1)"
proof -
  have r: "rd x = of_int (round_even (x / ulp x)) * ulp x" using assms by (simp add: rd_def)
  have "of_int (2 ^ 52) * ulp x \<le> of_int (round_even (x / ulp x)) * ulp x"
    using round_even_scaled(1) [OF assms] ulp_pos [of x]
    by (intro mult_right_mono) simp_all
  then show "2 powi binade x \<le> rd x" using r ulp_times(1) [of x] by (simp add: mult.commute)
  have "of_int (round_even (x / ulp x)) * ulp x \<le> of_int (2 ^ 53) * ulp x"
    using round_even_scaled(2) [OF assms] ulp_pos [of x]
    by (intro mult_right_mono) simp_all
  then show "rd x \<le> 2 powi (binade x + 1)" using r ulp_times(2) [of x] by (simp add: mult.commute)
qed

lemma rd_pos: "0 < x \<Longrightarrow> 0 < rd x"
  using rd_binade(1) [of x] zero_less_power_int [of "2::real" "binade x"] by linarith

lemma rd_mono_pos:
  assumes "0 < x" "x \<le> y"
  shows "rd x \<le> rd y"
proof -
  have y: "0 < y" using assms by linarith
  have "log 2 \<bar>x\<bar> \<le> log 2 \<bar>y\<bar>" using assms by simp
  then have le: "binade x \<le> binade y" unfolding binade_def by (rule floor_mono)
  show ?thesis
  proof (cases "binade x = binade y")
    case True
    then have u: "ulp x = ulp y" by (simp add: ulp_def)
    have "x / ulp y \<le> y / ulp y" using assms(2) ulp_pos [of y] by (simp add: divide_right_mono)
    then have "round_even (x / ulp y) \<le> round_even (y / ulp y)" by (rule round_even_mono)
    then have "of_int (round_even (x / ulp y)) * ulp y \<le> of_int (round_even (y / ulp y)) * ulp y"
      using ulp_pos [of y] by (intro mult_right_mono) simp_all
    then show ?thesis using assms(1) y u by (simp add: rd_def)
  next
    case False
    then have "binade x + 1 \<le> binade y" using le by linarith
    then have "(2::real) powi (binade x + 1) \<le> 2 powi binade y"
      by (intro power_int_increasing) simp_all
    then show ?thesis using rd_binade(2) [OF assms(1)] rd_binade(1) [OF y] by linarith
  qed
qed

lemma rd_mono:
  assumes "x \<le> y"
  shows "rd x \<le> rd y"
proof -
  consider "0 < x" | "x \<le> 0" "0 \<le> y" | "y < 0" using assms by linarith
  then show ?thesis
  proof cases
    case 1
    then show ?thesis using assms by (rule rd_mono_pos)
  next
    case 2
    have "rd x \<le> 0"
    proof (cases "x = 0")
      case True then show ?thesis by (simp add: rd_zero)
    next
      case False
      then have "0 < rd (- x)" using 2 by (intro rd_pos) simp
      then show ?thesis by (simp add: rd_minus)
    qed
    moreover have "0 \<le> rd y"
    proof (cases "y = 0")
      case True then show ?thesis by (simp add: rd_zero)
    next
      case False
      then have "0 < rd y" using 2 by (intro rd_pos) simp
      then show ?thesis by simp
    qed
    ultimately show ?thesis by linarith
  next
    case 3
    then have "rd (- y) \<le> rd (- x)" using assms by (intro rd_mono_pos) simp_all
    then show ?thesis by (simp add: rd_minus)
  qed
qed

lemma rd_idem_pos:
  assumes "0 < x"
  shows "rd (rd x) = rd x"
proof -
  let ?n = "round_even (x / ulp x)"
  have r: "rd x = of_int ?n * ulp x" using assms by (simp add: rd_def)
  have rp: "0 < rd x" using assms by (rule rd_pos)
  show ?thesis
  proof (cases "?n = 2 ^ 53")
    case True
    then have v: "rd x = 2 powi (binade x + 1)"
      using r ulp_times(2) [of x] by (simp add: mult.commute)
    have "binade (rd x) = binade x + 1"
      unfolding v by (rule binade_unique) (simp_all add: power_int_add)
    then have "ulp (rd x) = 2 powi (binade x + 1 - 52)" by (simp add: ulp_def)
    then have "rd x / ulp (rd x) = 2 powi 52"
      unfolding v by (simp flip: power_int_diff)
    then have "rd x / ulp (rd x) = of_int (2 ^ 52)" by simp
    then have "rd x / ulp (rd x) \<in> \<int>" by (simp only: Ints_of_int)
    then show ?thesis by (rule rd_fixed)
  next
    case False
    then have lt: "?n < 2 ^ 53" using round_even_scaled(2) [OF assms] by linarith
    have ge: "2 ^ 52 \<le> ?n" using round_even_scaled(1) [OF assms] .
    have "of_int ?n * ulp x < of_int (2 ^ 53) * ulp x"
      using lt ulp_pos [of x] by (intro mult_strict_right_mono) simp_all
    then have up: "rd x < 2 powi (binade x + 1)"
      using r ulp_times(2) [of x] by (simp add: mult.commute)
    have lo: "2 powi binade x \<le> rd x" using rd_binade(1) [OF assms] .
    have "binade (rd x) = binade x"
      using lo up rp by (intro binade_unique) simp_all
    then have "ulp (rd x) = ulp x" by (simp add: ulp_def)
    then have "rd x / ulp (rd x) = of_int ?n" using r ulp_pos [of x] by simp
    then have "rd x / ulp (rd x) \<in> \<int>" by (simp only: Ints_of_int)
    then show ?thesis by (rule rd_fixed)
  qed
qed

lemma rd_idem: "rd (rd x) = rd x"
proof -
  consider "0 < x" | "x = 0" | "x < 0" by linarith
  then show ?thesis
  proof cases
    case 1 then show ?thesis by (rule rd_idem_pos)
  next
    case 2 then show ?thesis by (simp add: rd_zero)
  next
    case 3
    then have "rd (rd (- x)) = rd (- x)" by (intro rd_idem_pos) simp
    then show ?thesis by (simp add: rd_minus)
  qed
qed

lemma rd_of_int:
  assumes "\<bar>n\<bar> < 2 ^ 53"
  shows "rd (of_int n) = of_int n"
proof (cases "n = 0")
  case True
  then show ?thesis by (simp add: rd_zero)
next
  case False
  let ?x = "real_of_int n"
  have x: "?x \<noteq> 0" using False by simp
  have "2 powi binade ?x \<le> \<bar>?x\<bar>" using binade_bounds(1) [OF x] .
  also have "\<bar>?x\<bar> < 2 powi 53"
  proof -
    have "real_of_int \<bar>n\<bar> < real_of_int (2 ^ 53)" using assms by (simp only: of_int_less_iff)
    then show ?thesis by simp
  qed
  finally have lt: "(2::real) powi binade ?x < 2 powi 53" .
  have "binade ?x < 53"
  proof (rule ccontr)
    assume "\<not> binade ?x < 53"
    then have "(2::real) powi 53 \<le> 2 powi binade ?x"
      by (intro power_int_increasing) simp_all
    then show False using lt by linarith
  qed
  then obtain k where k: "52 - binade ?x = int k"
    using nonneg_int_cases [of "52 - binade ?x"] by auto
  have "?x / ulp ?x = ?x * 2 powi (52 - binade ?x)"
    by (simp add: ulp_def power_int_diff)
  also have "\<dots> = of_int (n * 2 ^ k)" by (simp add: k)
  finally have "?x / ulp ?x \<in> \<int>" by (simp only: Ints_of_int)
  then show ?thesis by (rule rd_fixed)
qed

text \<open>
  The sign of a number survives rounding, and rounding stays on the same side of a
  double: on the side of an integer below \<open>2^53\<close> in particular.
\<close>

lemma rd_eq_0_iff: "rd x = 0 \<longleftrightarrow> x = 0"
proof
  assume r: "rd x = 0"
  show "x = 0"
  proof (rule ccontr)
    assume "x \<noteq> 0"
    then consider "0 < x" | "0 < - x" by linarith
    then show False
    proof cases
      case 1
      then show False using rd_pos [of x] r by simp
    next
      case 2
      then show False using rd_pos [of "- x"] r by (simp add: rd_minus)
    qed
  qed
qed (simp add: rd_zero)

lemma rd_pos_iff: "0 < rd x \<longleftrightarrow> 0 < x"
proof
  assume "0 < rd x"
  then show "0 < x" using rd_mono [of x 0] by (cases "0 < x") (simp_all add: rd_zero)
qed (rule rd_pos)

lemma rd_neg_iff: "rd x < 0 \<longleftrightarrow> x < 0"
  using rd_pos_iff [of "- x"] by (simp add: rd_minus)

lemma rd_nonneg: "0 \<le> x \<Longrightarrow> 0 \<le> rd x"
  using rd_mono [of 0 x] by (simp add: rd_zero)

lemma rd_nonneg_iff: "0 \<le> rd x \<longleftrightarrow> 0 \<le> x"
  using rd_neg_iff [of x] by linarith

lemma rd_le_int:
  assumes "x \<le> of_int n" "\<bar>n\<bar> < 2 ^ 53"
  shows "rd x \<le> of_int n"
  using rd_mono [OF assms(1)] rd_of_int [OF assms(2)] by simp

lemma rd_ge_int:
  assumes "of_int n \<le> x" "\<bar>n\<bar> < 2 ^ 53"
  shows "of_int n \<le> rd x"
  using rd_mono [OF assms(1)] rd_of_int [OF assms(2)] by simp

lemma rd_numeral: "(numeral k :: int) < 2 ^ 53 \<Longrightarrow> rd (numeral k) = numeral k"
  using rd_of_int [of "numeral k"] by simp

lemma rd_neg_numeral: "(numeral k :: int) < 2 ^ 53 \<Longrightarrow> rd (- numeral k) = - numeral k"
  using rd_of_int [of "- numeral k"] by simp

lemma rd_one: "rd 1 = 1"
  using rd_of_int [of 1] by simp

lemma rd_neg_one: "rd (- 1) = - 1"
  using rd_of_int [of "- 1"] by simp

text \<open>The rounded square root, from bounds on the squares.\<close>

lemma abs_half: "a - q / 2 < s \<Longrightarrow> s < a + q / 2 \<Longrightarrow> \<bar>s - a\<bar> < q / 2" for a q s :: real
  by linarith

lemma rd_sqrt_near:
  assumes "(2 powi e)\<^sup>2 \<le> v" "v < (2 powi (e + 1))\<^sup>2"
    and "((of_int n - 1 / 2) * 2 powi (e - 52))\<^sup>2 < v"
    and "v < ((of_int n + 1 / 2) * 2 powi (e - 52))\<^sup>2"
    and "0 < n"
  shows "rd (sqrt v) = of_int n * 2 powi (e - 52)"
proof (rule rd_near)
  define q :: real where "q = 2 powi (e - 52)"
  have q: "0 < q" by (simp add: q_def)
  have n: "1 \<le> real_of_int n" using assms(5) by linarith
  have v: "0 \<le> v" using assms(1) zero_le_power2 [of "(2::real) powi e"] by linarith
  have s: "0 \<le> sqrt v" using v by simp
  have "2 powi e \<le> sqrt v" using assms(1) by (rule real_le_rsqrt)
  then show "2 powi e \<le> \<bar>sqrt v\<bar>" using s by simp
  have "sqrt v < 2 powi (e + 1)" using assms(2) by (intro real_less_lsqrt) simp_all
  then show "\<bar>sqrt v\<bar> < 2 powi (e + 1)" using s by simp
  have lo: "(of_int n - 1 / 2) * q < sqrt v"
    using assms(3) unfolding q_def by (rule real_less_rsqrt)
  have "0 \<le> (of_int n + 1 / 2) * q" using n q by simp
  then have hi: "sqrt v < (of_int n + 1 / 2) * q"
    using assms(4) unfolding q_def by (intro real_less_lsqrt) simp_all
  have lo': "of_int n * q - q / 2 < sqrt v" using lo by (simp add: algebra_simps)
  have hi': "sqrt v < of_int n * q + q / 2" using hi by (simp add: algebra_simps)
  have "\<bar>sqrt v - of_int n * q\<bar> < q / 2"
    using lo' hi' by (rule abs_half)
  then show "\<bar>sqrt v - of_int n * 2 powi (e - 52)\<bar> < 2 powi (e - 52) / 2"
    by (simp add: q_def)
qed

section \<open>Rounding of the constants and of the values of the examples\<close>

text \<open>
  Each fact gives the double nearest to a number, by \<open>rd_near\<close> (or \<open>rd_tie\<close> when the
  number is half-way between two doubles).
\<close>

lemma rd_fact_1: "rd (53 / 2) = 53 / 2"
  by (rule rd_near [where e = "4" and n = "7459086882832384", THEN trans]) simp_all

lemma rd_fact_2: "rd (67 / 2) = 67 / 2"
  by (rule rd_near [where e = "5" and n = "4714705859903488", THEN trans]) simp_all

lemma rd_fact_3: "rd (39 / 2) = 39 / 2"
  by (rule rd_near [where e = "4" and n = "5488762045857792", THEN trans]) simp_all

lemma rd_fact_4: "rd (1 / 25) = 5764607523034235 / 144115188075855872"
  by (rule rd_near [where e = "- 5" and n = "5764607523034235", THEN trans]) simp_all

lemma rd_fact_5: "rd (1 / 10) = 3602879701896397 / 36028797018963968"
  by (rule rd_near [where e = "- 4" and n = "7205759403792794", THEN trans]) simp_all

lemma rd_fact_6: "rd (25 / 2) = 25 / 2"
  by (rule rd_near [where e = "3" and n = "7036874417766400", THEN trans]) simp_all

lemma rd_fact_7: "rd (4 / 5) = 3602879701896397 / 4503599627370496"
  by (rule rd_near [where e = "- 1" and n = "7205759403792794", THEN trans]) simp_all

lemma rd_fact_8: "rd (3 / 5) = 5404319552844595 / 9007199254740992"
  by (rule rd_near [where e = "- 1" and n = "5404319552844595", THEN trans]) simp_all

lemma rd_fact_9: "rd (7 / 20) = 3152519739159347 / 9007199254740992"
  by (rule rd_near [where e = "- 2" and n = "6305039478318694", THEN trans]) simp_all

lemma rd_fact_10: "rd (6 / 5) = 5404319552844595 / 4503599627370496"
  by (rule rd_near [where e = "0" and n = "5404319552844595", THEN trans]) simp_all

lemma rd_fact_11: "rd (1 / 5) = 3602879701896397 / 18014398509481984"
  by (rule rd_near [where e = "- 3" and n = "7205759403792794", THEN trans]) simp_all

lemma rd_fact_12: "rd (5404319552844595 / 9007199254740992) = 5404319552844595 / 9007199254740992"
  by (rule rd_near [where e = "- 1" and n = "5404319552844595", THEN trans]) simp_all

lemma rd_fact_13: "rd (3 / 7) = 7720456504063707 / 18014398509481984"
  by (rule rd_near [where e = "- 2" and n = "7720456504063707", THEN trans]) simp_all

lemma rd_fact_14: "rd (17037224067067401444747832679465 / 81129638414606681695789005144064) = 7566047373982433 / 36028797018963968"
  by (rule rd_near [where e = "- 3" and n = "7566047373982433", THEN trans]) simp_all

lemma rd_fact_15: "rd (7566047373982433 / 36028797018963968) = 7566047373982433 / 36028797018963968"
  by (rule rd_near [where e = "- 3" and n = "7566047373982433", THEN trans]) simp_all

lemma rd_fact_16: "rd (7720456504063707 / 72057594037927936) = 7720456504063707 / 72057594037927936"
  by (rule rd_near [where e = "- 4" and n = "7720456504063707", THEN trans]) simp_all

lemma rd_fact_17: "rd (22852551252028573 / 72057594037927936) = 5713137813007143 / 18014398509481984"
  by (rule rd_near [where e = "- 2" and n = "5713137813007143", THEN trans]) simp_all

lemma rd_fact_18: "rd (5713137813007143 / 18014398509481984) = 5713137813007143 / 18014398509481984"
  by (rule rd_near [where e = "- 2" and n = "5713137813007143", THEN trans]) simp_all

lemma rd_fact_19: "rd (2 / 5) = 3602879701896397 / 9007199254740992"
  by (rule rd_near [where e = "- 2" and n = "7205759403792794", THEN trans]) simp_all

lemma rd_fact_20: "rd (- (3599276822194500603 / 18014398509481984)) = - (3514918771674317 / 17592186044416)"
  by (rule rd_near [where e = "7" and n = "- 7029837543348634", THEN trans]) simp_all

lemma rd_fact_21: "rd (- (3593563684381493465 / 18014398509481984)) = - (1754669767764401 / 8796093022208)"
  by (rule rd_near [where e = "7" and n = "- 7018679071057604", THEN trans]) simp_all

lemma rd_fact_22: "rd (- (1754669767764401 / 8796093022208)) = - (1754669767764401 / 8796093022208)"
  by (rule rd_near [where e = "7" and n = "- 7018679071057604", THEN trans]) simp_all

lemma rd_fact_23: "rd (3 / 10) = 5404319552844595 / 18014398509481984"
  by (rule rd_near [where e = "- 2" and n = "5404319552844595", THEN trans]) simp_all

lemma rd_fact_24: "rd (- (19471113219505603967277331424215 / 324518553658426726783156020576256)) = - (1080863910568919 / 18014398509481984)"
  by (rule rd_near [where e = "- 5" and n = "- 8646911284551352", THEN trans]) simp_all

lemma rd_fact_25: "rd (289517118902389 / 1125899906842624) = 289517118902389 / 1125899906842624"
  by (rule rd_near [where e = "- 2" and n = "4632273902438224", THEN trans]) simp_all

lemma rd_fact_26: "rd (- (12980742146337070512478121581609 / 81129638414606681695789005144064)) = - (1441151880758559 / 9007199254740992)"
  by (rule rd_near [where e = "- 3" and n = "- 5764607523034236", THEN trans]) simp_all

lemma rd_fact_27: "rd (2830834051490025 / 18014398509481984) = 2830834051490025 / 18014398509481984"
  by (rule rd_near [where e = "- 3" and n = "5661668102980050", THEN trans]) simp_all

lemma rd_fact_28: "rd (432345564227567625 / 36028797018963968) = 12"
  by (rule rd_near [where e = "3" and n = "6755399441055744", THEN trans]) simp_all

lemma rd_fact_29: "rd (18014398509481985 / 2251799813685248) = 8"
  by (rule rd_near [where e = "3" and n = "4503599627370496", THEN trans]) simp_all

lemma rd_fact_30: "rd (- (2 / 3)) = - (6004799503160661 / 9007199254740992)"
  by (rule rd_near [where e = "- 1" and n = "- 6004799503160661", THEN trans]) simp_all

lemma rd_fact_31: "rd (25 / 6) = 4691249611844267 / 1125899906842624"
  by (rule rd_near [where e = "2" and n = "4691249611844267", THEN trans]) simp_all

lemma rd_fact_32: "rd (13698448866585259 / 1125899906842624) = 3424612216646315 / 281474976710656"
  by (rule rd_tie [where e = "3" and n = "6849224433292630", THEN trans]) simp_all

lemma rd_fact_33: "rd (3424612216646315 / 281474976710656) = 3424612216646315 / 281474976710656"
  by (rule rd_near [where e = "3" and n = "6849224433292630", THEN trans]) simp_all

lemma rd_fact_34: "rd (3424612216646315 / 140737488355328) = 3424612216646315 / 140737488355328"
  by (rule rd_near [where e = "4" and n = "6849224433292630", THEN trans]) simp_all

lemma rd_fact_35: "rd (10273836649938945 / 281474976710656) = 73 / 2"
  by (rule rd_tie [where e = "5" and n = "5136918324969472", THEN trans]) simp_all

lemma rd_fact_36: "rd (73 / 6) = 6849224433292629 / 562949953421312"
  by (rule rd_near [where e = "3" and n = "6849224433292629", THEN trans]) simp_all

lemma rd_fact_37: "rd (1 / 562949953421312) = 1 / 562949953421312"
  by (rule rd_near [where e = "- 49" and n = "4503599627370496", THEN trans]) simp_all

lemma rd_fact_38: "rd (1 / 316912650057057350374175801344) = 1 / 316912650057057350374175801344"
  by (rule rd_near [where e = "- 98" and n = "4503599627370496", THEN trans]) simp_all

lemma rd_fact_39: "rd (1 / 158456325028528675187087900672) = 1 / 158456325028528675187087900672"
  by (rule rd_near [where e = "- 97" and n = "4503599627370496", THEN trans]) simp_all

lemma rd_fact_40: "rd (3 / 316912650057057350374175801344) = 3 / 316912650057057350374175801344"
  by (rule rd_near [where e = "- 97" and n = "6755399441055744", THEN trans]) simp_all

lemma rd_fact_41: "rd (25 / 14) = 8042142191733029 / 4503599627370496"
  by (rule rd_near [where e = "0" and n = "8042142191733029", THEN trans]) simp_all

lemma rd_fact_42: "rd (8042142191733029 / 18014398509481984) = 8042142191733029 / 18014398509481984"
  by (rule rd_near [where e = "- 2" and n = "8042142191733029", THEN trans]) simp_all

lemma rd_fact_43: "rd (26056540701215013 / 18014398509481984) = 6514135175303753 / 4503599627370496"
  by (rule rd_near [where e = "0" and n = "6514135175303753", THEN trans]) simp_all

lemma rd_fact_44: "rd (6514135175303753 / 4503599627370496) = 6514135175303753 / 4503599627370496"
  by (rule rd_near [where e = "0" and n = "6514135175303753", THEN trans]) simp_all

lemma rd_fact_45: "rd (- (10808639105689191 / 18014398509481984)) = - (1351079888211149 / 2251799813685248)"
  by (rule rd_tie [where e = "- 1" and n = "- 5404319552844596", THEN trans]) simp_all

lemma rd_fact_46: "rd (- (4867778304876401892539258330153 / 10141204801825835211973625643008)) = - (4323455642275677 / 9007199254740992)"
  by (rule rd_near [where e = "- 2" and n = "- 8646911284551354", THEN trans]) simp_all

lemma rd_fact_47: "rd (- (10808639105689191 / 9007199254740992)) = - (1351079888211149 / 1125899906842624)"
  by (rule rd_tie [where e = "0" and n = "- 5404319552844596", THEN trans]) simp_all

lemma rd_fact_48: "rd (- (4867778304876401892539258330153 / 5070602400912917605986812821504)) = - (4323455642275677 / 4503599627370496)"
  by (rule rd_near [where e = "- 1" and n = "- 8646911284551354", THEN trans]) simp_all

lemma rd_fact_49: "rd (10808639105689191 / 18014398509481984) = 1351079888211149 / 2251799813685248"
  by (rule rd_tie [where e = "- 1" and n = "5404319552844596", THEN trans]) simp_all

lemma rd_fact_50: "rd (4867778304876401892539258330153 / 10141204801825835211973625643008) = 4323455642275677 / 9007199254740992"
  by (rule rd_near [where e = "- 2" and n = "8646911284551354", THEN trans]) simp_all

lemma rd_fact_51: "rd (10808639105689191 / 9007199254740992) = 1351079888211149 / 1125899906842624"
  by (rule rd_tie [where e = "0" and n = "5404319552844596", THEN trans]) simp_all

lemma rd_fact_52: "rd (4867778304876401892539258330153 / 5070602400912917605986812821504) = 4323455642275677 / 4503599627370496"
  by (rule rd_near [where e = "- 1" and n = "8646911284551354", THEN trans]) simp_all

lemma rd_fact_53: "rd (11358149378044935347338468172759 / 81129638414606681695789005144064) = 5044031582654955 / 36028797018963968"
  by (rule rd_near [where e = "- 3" and n = "5044031582654955", THEN trans]) simp_all

lemma rd_fact_54: "rd (23 / 2) = 23 / 2"
  by (rule rd_near [where e = "3" and n = "6473924464345088", THEN trans]) simp_all

lemma rd_fact_55: "rd (sqrt (1 / 316912650057057350374175801344)) = 1 / 562949953421312"
  by (rule rd_sqrt_near [where e = "- 49" and n = "4503599627370496", THEN trans]) (simp_all add: power2_eq_square)

lemmas rd_facts = rd_zero rd_one rd_neg_one rd_numeral rd_neg_numeral
  rd_fact_1 rd_fact_2 rd_fact_3 rd_fact_4 rd_fact_5 rd_fact_6
  rd_fact_7 rd_fact_8 rd_fact_9 rd_fact_10 rd_fact_11 rd_fact_12
  rd_fact_13 rd_fact_14 rd_fact_15 rd_fact_16 rd_fact_17 rd_fact_18
  rd_fact_19 rd_fact_20 rd_fact_21 rd_fact_22 rd_fact_23 rd_fact_24
  rd_fact_25 rd_fact_26 rd_fact_27 rd_fact_28 rd_fact_29 rd_fact_30
  rd_fact_31 rd_fact_32 rd_fact_33 rd_fact_34 rd_fact_35 rd_fact_36
  rd_fact_37 rd_fact_38 rd_fact_39 rd_fact_40 rd_fact_41 rd_fact_42
  rd_fact_43 rd_fact_44 rd_fact_45 rd_fact_46 rd_fact_47 rd_fact_48
  rd_fact_49 rd_fact_50 rd_fact_51 rd_fact_52 rd_fact_53 rd_fact_54
  rd_fact_55

section \<open>Arithmetic of JavaScript numbers\<close>

lemma representable_simps:
  "representable NaN" "representable (Num 0)"
  "representable (jadd a b)" "representable (jmul a b)" "representable (jsub a b)"
  by (cases a; cases b; simp add: representable_def rd_zero rd_idem)+

lemma jadd_zero_right: "representable e \<Longrightarrow> jadd e (Num 0) = e"
  by (cases e) (simp_all add: representable_def)

lemma jadd_zero_left: "representable e \<Longrightarrow> jadd (Num 0) e = e"
  by (cases e) (simp_all add: representable_def)

lemma jadd_NaN: "jadd NaN x = NaN" "jadd x NaN = NaN"
  by (cases x; simp)+

section \<open>The estimator\<close>

lemma representable_contribution: "representable (contribution ps k w)"
  by (simp add: contribution_def representable_simps split: option.splits)

lemma add_stat_Some:
  "representable e \<Longrightarrow>
   add_stat ps (Some r) (k, f) (Inr e) = Inr (jadd e (contribution ps k (f r)))"
  by (auto simp: add_stat_def contribution_def jadd_zero_right split: option.splits)

lemma fold_add_stat:
  "representable e \<Longrightarrow>
   fold (add_stat ps (Some r)) kfs (Inr e) =
     Inr (foldl jadd e (map (\<lambda>kf. contribution ps (fst kf) (snd kf r)) kfs))"
proof (induction kfs arbitrary: e)
  case Nil
  then show ?case by simp
next
  case (Cons kf kfs)
  obtain k f where kf: "kf = (k, f)" by (cases kf)
  have "representable (jadd e (contribution ps k (f r)))" by (rule representable_simps)
  then show ?case
    using Cons.prems Cons.IH [of "jadd e (contribution ps k (f r))"]
    by (simp add: kf add_stat_Some)
qed

text \<open>
  Claim C4. On props that are not empty, and rules that are an object,
  \<^verbatim>\<open>expectedFantasyPoints\<close> returns the weighted sum of the props that are present, an
  absent prop contributing zero; on the rules
  \<^verbatim>\<open>{passYards: 0.04, passTD: 4, passInt: -2, reception: 1, recTD: 6}\<close> and the props
  \<^verbatim>\<open>{pass_yds: 300, pass_tds: 2, interceptions: 1}\<close> of a QB it returns 18.
\<close>

theorem expectedFantasyPoints_weighted_sum:
  "(ps \<noteq> [] \<longrightarrow>
      expectedFantasyPoints (Some ps) (Some r) pos cx = Inr (weighted_sum ps r pos)) \<and>
   expectedFantasyPoints (Some example_props) (Some example_rules) ''QB'' cx = Inr (Num 18)"
proof
  have "fold (add_stat ps (Some r)) (stat_lines pos) (Inr (Num 0)) =
      Inr (foldl jadd (Num 0) (map (\<lambda>kf. contribution ps (fst kf) (snd kf r)) (stat_lines pos)))"
    by (rule fold_add_stat) (rule representable_simps)
  also have "\<dots> = Inr (weighted_sum ps r pos)"
    by (simp add: stat_lines_def weighted_sum_def tdValue_def)
  finally show "ps \<noteq> [] \<longrightarrow>
      expectedFantasyPoints (Some ps) (Some r) pos cx = Inr (weighted_sum ps r pos)"
    by (simp add: expectedFantasyPoints_def)
  show "expectedFantasyPoints (Some example_props) (Some example_rules) ''QB'' cx = Inr (Num 18)"
    by (simp add: expectedFantasyPoints_def stat_lines_def example_props_def example_rules_def
        add_stat_def prop_val_def tdValue_def rd_facts)
qed

theorem expectedFantasyPoints_weighted_sum_witness:
  "[(''rush_yds'', 80), (''anytime_td_prob'', 0.5)] \<noteq> ([] :: props) \<and>
   expectedFantasyPoints (Some [(''rush_yds'', 80), (''anytime_td_prob'', 0.5)])
      (Some default_rules) ''RB'' None = Inr (Num 11)"
  using expectedFantasyPoints_weighted_sum
    [of "[(''rush_yds'', 80), (''anytime_td_prob'', 0.5)]" default_rules "''RB''" None]
  by (simp add: weighted_sum_def contribution_def prop_val_def default_rules_def rd_facts)

text \<open>The fallback of the estimator, case by case.\<close>

lemma baseline_lookup: "lookup_or FALLBACK_BASELINES pos 5 = spec_baseline pos"
  by (simp add: lookup_or_def FALLBACK_BASELINES_def spec_baseline_def)

lemma applyFallback_cases:
  "applyFallback pos cx rules =
     (case cx of
        None \<Rightarrow> spec_baseline pos
      | Some c \<Rightarrow>
         (case implied_totals c of
            None \<Rightarrow> spec_baseline pos
          | Some its \<Rightarrow> claimed_fallback pos (home_team c) c (homeIT its)))"
  by (auto simp: applyFallback_def baseline_lookup claimed_fallback_def fallback_script_def
      own_spread_def Let_def split: option.splits)

lemma home_game_simps:
  "implied_totals home_favorite_game = Some \<lparr>homeIT = 24, awayIT = 18\<rparr>"
  "spread_num home_favorite_game = - 6"
  by (simp_all add: home_favorite_game_def build_line_def spread_num_def rd_facts)

lemma home_game_teams:
  "home_team home_favorite_game = ''KC''" "away_team home_favorite_game = ''DEN''"
  "spread home_favorite_game = Some (- 6)"
  by (simp_all add: home_favorite_game_def build_line_def)

lemma away_game_simps:
  "implied_totals away_favorite_game = Some \<lparr>homeIT = 19, awayIT = 25\<rparr>"
  "spread away_favorite_game = Some 6"
  "home_team away_favorite_game = ''DEN''" "away_team away_favorite_game = ''KC''"
  by (simp_all add: away_favorite_game_def build_line_def rd_facts)

lemma no_total_simps:
  "implied_totals no_total_game = None" "spread_num no_total_game = - 6"
  "home_team no_total_game = ''KC''"
  by (simp_all add: no_total_game_def build_line_def spread_num_def)

lemma claimed_fallback_favoured_back:
  assumes "own_spread c tm \<le> - 4.5"
  shows "23 / 2 \<le> claimed_fallback ''RB'' tm c h"
proof -
  have "of_int 10 \<le> rd (10 + max 0 (rd (rd (h - 21) / 3)))"
    by (rule rd_ge_int) simp_all
  then have "23 / 2 \<le> rd (10 + max 0 (rd (rd (h - 21) / 3))) + 3 / 2" by simp
  then have "rd (23 / 2) \<le> rd (rd (10 + max 0 (rd (rd (h - 21) / 3))) + 3 / 2)"
    by (rule rd_mono)
  moreover have "rd (23 / 2) = 23 / 2"
    by (simp add: rd_facts)
  ultimately show ?thesis
    using assms by (simp add: claimed_fallback_def spec_baseline_def fallback_script_def)
qed

text \<open>
  For a player of the away team the estimator reads the home implied total and the
  spread of the home team all the same: an RB of the away team that is favoured by 6 gets
  the bare baseline, where the script bonus of the own team is 1.5.
\<close>

lemma fallback_away_player:
  "expectedFantasyPoints (Some []) rules ''RB'' (Some away_favorite_game) = Inr (Num 10)"
  "fallback_script ''RB'' (own_spread away_favorite_game ''KC'') = 3 / 2"
  by (simp_all add: expectedFantasyPoints_def applyFallback_cases away_game_simps
      claimed_fallback_def own_spread_def spread_num_def spec_baseline_def fallback_script_def
      rd_facts)

text \<open>
  Claim C5, as stated, on a line where the home team is favoured by 6 and no book gave a
  total: the line has no implied totals, and the estimator returns the bare baseline 10
  for an RB of the home team without props. The claimed formula adds the script bonus
  1.5 of a team favoured by 6: it gives 11.5 on the home implied total 3 (the total
  counted as 0), and at least 11.5 on any other.
\<close>

theorem fallback_counterexample:
  "implied_totals no_total_game = None \<and>
   expectedFantasyPoints (Some []) (Some default_rules) ''RB'' (Some no_total_game) = Inr (Num 10) \<and>
   fallback_script ''RB'' (own_spread no_total_game ''KC'') = 3 / 2 \<and>
   claimed_fallback ''RB'' ''KC'' no_total_game 3 = 23 / 2"
  by (simp add: expectedFantasyPoints_def applyFallback_cases no_total_simps spec_baseline_def
      claimed_fallback_def own_spread_def fallback_script_def rd_facts)

text \<open>
  Claim C5, amended. Without props the estimate is the baseline of the position (QB 15,
  RB 10, WR 8, TE 6, K 8, DEF 8, otherwise 5) when there is no game context or the
  context carries no implied totals; when it carries them, the estimate of a player of
  the home team is baseline + max(0, (homeIT - 21)/3) + script bonus; an RB at home,
  favoured by 6, with home implied total 24 gets 12.5.
\<close>

theorem fallback_estimate:
  "expectedFantasyPoints None rules pos cx = expectedFantasyPoints (Some []) rules pos cx \<and>
   expectedFantasyPoints (Some []) rules pos None = Inr (Num (spec_baseline pos)) \<and>
   (implied_totals c = None \<longrightarrow>
      expectedFantasyPoints (Some []) rules pos (Some c) = Inr (Num (spec_baseline pos))) \<and>
   (implied_totals c = Some its \<and> tm = home_team c \<longrightarrow>
      expectedFantasyPoints (Some []) rules pos (Some c) =
        Inr (Num (claimed_fallback pos tm c (homeIT its)))) \<and>
   expectedFantasyPoints (Some []) rules ''RB'' (Some home_favorite_game) = Inr (Num 12.5)"
  by (simp add: expectedFantasyPoints_def applyFallback_cases home_game_simps home_game_teams
      claimed_fallback_def own_spread_def spec_baseline_def fallback_script_def rd_facts)

theorem fallback_estimate_witness:
  "implied_totals home_favorite_game = Some \<lparr>homeIT = 24, awayIT = 18\<rparr> \<and>
   ''KC'' = home_team home_favorite_game \<and>
   expectedFantasyPoints (Some []) None ''QB'' (Some home_favorite_game) = Inr (Num 17) \<and>
   implied_totals no_total_game = None \<and>
   expectedFantasyPoints (Some []) None ''QB'' (Some no_total_game) = Inr (Num 15)"
proof -
  have h: "implied_totals home_favorite_game = Some \<lparr>homeIT = 24, awayIT = 18\<rparr> \<and>
      ''KC'' = home_team home_favorite_game"
    by (simp add: home_game_simps home_game_teams)
  have p: "implied_totals no_total_game = None"
    by (rule no_total_simps)
  note with_totals = fallback_estimate [where rules = None and pos = "''QB''"
      and c = home_favorite_game and tm = "''KC''", THEN conjunct2, THEN conjunct2, THEN conjunct2,
      THEN conjunct1, THEN mp, OF h]
  note without_totals = fallback_estimate [where rules = None and pos = "''QB''"
      and c = no_total_game, THEN conjunct2, THEN conjunct2, THEN conjunct1, THEN mp, OF p]
  show ?thesis
    using h p with_totals without_totals
    by (simp add: claimed_fallback_def own_spread_def spec_baseline_def fallback_script_def
        home_game_simps home_game_teams rd_facts)
qed

section \<open>The ceiling bonus\<close>

lemma ceiling_lookup: "lookup_or CEILING_WEIGHTS pos 0 = position_weight pos"
  by (simp add: lookup_or_def CEILING_WEIGHTS_def position_weight_def)

lemma applyMultiTDBonus_formula:
  "applyMultiTDBonus e (Some ps) (Some r) pos =
     Inr (case prop_val ps ''two_plus_td_prob'' of
            None \<Rightarrow> Num 0
          | Some p \<Rightarrow>
             if p = 0 \<or> position_weight pos = 0 then Num 0
             else jmul (jmul (Num p) (weight (tdValue pos r))) (Num (position_weight pos)))"
  by (simp add: applyMultiTDBonus_def ceiling_lookup Let_def split: option.splits)

lemma applyMultiTDBonus_value:
  assumes "prop_val ps ''two_plus_td_prob'' = Some p" "tdValue pos r = Some t"
  shows "applyMultiTDBonus e (Some ps) (Some r) pos = Inr (Num (rd (rd (p * t) * position_weight pos)))"
  using assms by (simp add: applyMultiTDBonus_formula rd_zero)

lemma position_weight_nonneg: "0 \<le> position_weight pos"
  by (simp add: position_weight_def rd_nonneg)

text \<open>
  Claim C7, as stated, on rules whose rushing touchdown is worth -6: the bonus of an RB
  falls from \<open>-0.4800000000000001\<close> to \<open>-0.9600000000000002\<close> when the probability
  rises from 0.1 to 0.2.
\<close>

theorem ceiling_bonus_counterexample:
  "applyMultiTDBonus (Num 0) (Some [(''two_plus_td_prob'', rd 0.1)]) (Some negative_td_rules) ''RB''
     = Inr (Num (- (4323455642275677 / 9007199254740992))) \<and>
   applyMultiTDBonus (Num 0) (Some [(''two_plus_td_prob'', rd 0.2)]) (Some negative_td_rules) ''RB''
     = Inr (Num (- (4323455642275677 / 4503599627370496)))"
  by (simp add: applyMultiTDBonus_formula position_weight_def prop_val_def tdValue_def
      negative_td_rules_def default_rules_def rd_facts)

text \<open>
  Claim C7, amended. The ceiling bonus is probability times touchdown weight times
  position weight (RB 0.8, TE 0.6, WR 0.35, otherwise 0), and 0 when the probability is
  absent or the position weight is 0; it is 0 for QB, K and DEF whatever the props and
  rules; and it is non-decreasing in the probability when the touchdown weight is not
  negative.
\<close>

theorem ceiling_bonus_formula:
  "applyMultiTDBonus e (Some ps) (Some r) pos =
     Inr (case prop_val ps ''two_plus_td_prob'' of
            None \<Rightarrow> Num 0
          | Some p \<Rightarrow>
             if p = 0 \<or> position_weight pos = 0 then Num 0
             else jmul (jmul (Num p) (weight (tdValue pos r))) (Num (position_weight pos))) \<and>
   applyMultiTDBonus e prs rules ''QB'' = Inr (Num 0) \<and>
   applyMultiTDBonus e prs rules ''K'' = Inr (Num 0) \<and>
   applyMultiTDBonus e prs rules ''DEF'' = Inr (Num 0) \<and>
   (prop_val ps ''two_plus_td_prob'' = Some p \<and> prop_val ps' ''two_plus_td_prob'' = Some p' \<and>
    p \<le> p' \<and> tdValue pos r = Some t \<and> 0 \<le> t \<longrightarrow>
      (\<exists>b b'. applyMultiTDBonus e (Some ps) (Some r) pos = Inr (Num b) \<and>
               applyMultiTDBonus e' (Some ps') (Some r) pos = Inr (Num b') \<and> b \<le> b'))"
proof (intro conjI impI)
  show "applyMultiTDBonus e prs rules ''QB'' = Inr (Num 0)"
    by (simp add: applyMultiTDBonus_def ceiling_lookup position_weight_def)
  show "applyMultiTDBonus e prs rules ''K'' = Inr (Num 0)"
    by (simp add: applyMultiTDBonus_def ceiling_lookup position_weight_def)
  show "applyMultiTDBonus e prs rules ''DEF'' = Inr (Num 0)"
    by (simp add: applyMultiTDBonus_def ceiling_lookup position_weight_def)
next
  assume h: "prop_val ps ''two_plus_td_prob'' = Some p \<and>
    prop_val ps' ''two_plus_td_prob'' = Some p' \<and> p \<le> p' \<and> tdValue pos r = Some t \<and> 0 \<le> t"
  have "p * t \<le> p' * t" using h by (simp add: mult_right_mono)
  then have "rd (p * t) \<le> rd (p' * t)" by (rule rd_mono)
  then have "rd (p * t) * position_weight pos \<le> rd (p' * t) * position_weight pos"
    using position_weight_nonneg [of pos] by (rule mult_right_mono)
  then have "rd (rd (p * t) * position_weight pos) \<le> rd (rd (p' * t) * position_weight pos)"
    by (rule rd_mono)
  then show "\<exists>b b'. applyMultiTDBonus e (Some ps) (Some r) pos = Inr (Num b) \<and>
               applyMultiTDBonus e' (Some ps') (Some r) pos = Inr (Num b') \<and> b \<le> b'"
    using h by (simp add: applyMultiTDBonus_value)
qed (rule applyMultiTDBonus_formula)

theorem ceiling_bonus_formula_witness:
  "\<exists>b b'. applyMultiTDBonus (Num 9) (Some [(''two_plus_td_prob'', rd 0.1)]) (Some default_rules) ''RB''
             = Inr (Num b) \<and>
          applyMultiTDBonus (Num 9) (Some [(''two_plus_td_prob'', rd 0.2)]) (Some default_rules) ''RB''
             = Inr (Num b') \<and> b \<le> b'"
proof -
  have h: "prop_val [(''two_plus_td_prob'', rd 0.1)] ''two_plus_td_prob'' = Some (rd 0.1) \<and>
      prop_val [(''two_plus_td_prob'', rd 0.2)] ''two_plus_td_prob'' = Some (rd 0.2) \<and>
      rd 0.1 \<le> rd 0.2 \<and> tdValue ''RB'' default_rules = Some 6 \<and> (0::real) \<le> 6"
    by (simp add: prop_val_def tdValue_def default_rules_def rd_facts)
  show ?thesis
    by (rule ceiling_bonus_formula [THEN conjunct2, THEN conjunct2, THEN conjunct2, THEN conjunct2,
          THEN mp, OF h])
qed

section \<open>The script bonus\<close>

text \<open>What the script bonus is on a line that has implied totals: a function of the raw spread.\<close>

lemma calculateScriptBonus_home:
  assumes "implied_totals c \<noteq> None"
  shows "calculateScriptBonus pos (Some c) =
     (if pos = ''RB'' then (if spread_num c \<le> - 4.5 then rd 0.6 else 0)
      else if pos = ''WR'' \<or> pos = ''TE'' then (if 4.5 \<le> spread_num c then rd 0.6 else 0)
      else if pos = ''QB'' then (if spread_num c < 0 then rd 0.4 else 0)
      else 0)"
  using assms
  by (auto simp: calculateScriptBonus_def calculateScriptLean_def Let_def truthy_def spread_num_def
      rd_idem rd_zero split: option.splits)

text \<open>
  Claim C2 at a game whose away team is favoured by 6. The score engine asks for the lean
  of the home team whoever the player is: an RB and a QB of the favoured away team get 0
  and a WR of it gets 0.6, while the lean of the away team itself is a run lean.
\<close>

theorem script_bonus_away_team:
  "calculateScriptBonus ''RB'' (Some away_favorite_game) = 0 \<and>
   calculateScriptBonus ''QB'' (Some away_favorite_game) = 0 \<and>
   calculateScriptBonus ''WR'' (Some away_favorite_game) = rd 0.6 \<and>
   calculateScriptLean away_favorite_game ''KC'' 4.5 = (0, 1)"
  by (simp add: calculateScriptBonus_def calculateScriptLean_def away_game_simps
      truthy_def spread_num_def rd_idem rd_zero)

theorem script_bonus_away_team_witness:
  "calculateScriptBonus ''RB'' (Some away_favorite_game) \<noteq> rd 0.6 \<and>
   calculateScriptBonus ''QB'' (Some away_favorite_game) \<noteq> rd 0.4 \<and>
   snd (calculateScriptLean away_favorite_game ''KC'' 4.5) = 1"
  using script_bonus_away_team by (simp add: rd_eq_0_iff)

section \<open>The z-score\<close>

lemma calculateZScore_empty: "calculateZScore v [] = Num 0"
  by (simp add: calculateZScore_def)

lemma calculateZScore_single:
  assumes "rd x = x"
  shows "calculateZScore (Num v) [Num x] = Num 0"
  using assms by (simp add: calculateZScore_def Let_def rd_zero)

lemma rd_double:
  assumes "rd x = x"
  shows "rd (2 * x) = 2 * x"
proof (cases "x = 0")
  case True
  then show ?thesis by (simp add: rd_zero)
next
  case False
  have "binade (2 * x) = binade x + 1"
  proof (rule binade_unique)
    have "\<bar>2 * x\<bar> = 2 * \<bar>x\<bar>" by simp
    moreover have "(2::real) powi (binade x + 1) = 2 * 2 powi binade x"
      "(2::real) powi (binade x + 1 + 1) = 2 * 2 powi (binade x + 1)"
      by (simp_all add: power_int_add)
    ultimately show "2 powi (binade x + 1) \<le> \<bar>2 * x\<bar>" "\<bar>2 * x\<bar> < 2 powi (binade x + 1 + 1)"
      using binade_bounds [OF False] by simp_all
  qed
  then have u: "ulp (2 * x) = 2 * ulp x"
    by (simp add: ulp_def power_int_diff power_int_add)
  then have "round_even (2 * x / ulp (2 * x)) = round_even (x / ulp x)" by simp
  then show ?thesis
    using False assms u by (simp add: rd_def algebra_simps)
qed

lemma calculateZScore_pair:
  assumes "rd x = x"
  shows "calculateZScore (Num v) [Num x, Num x] = Num 0"
  using assms by (simp add: calculateZScore_def Let_def rd_zero rd_double)

lemma blowout_simps:
  "implied_totals blowout_game = Some \<lparr>homeIT = 67 / 2, awayIT = 39 / 2\<rparr>"
  "spread blowout_game = Some (- 14)"
  "home_team blowout_game = ''KC''" "away_team blowout_game = ''DEN''"
  by (simp_all add: blowout_game_def build_line_def rd_facts)

lemma receiver_estimate:
  "expectedFantasyPoints (Some []) (Some default_rules) ''WR'' (Some blowout_game) =
     Inr (Num receiver_efp)"
  by (simp add: expectedFantasyPoints_def applyFallback_def lookup_or_def FALLBACK_BASELINES_def
      blowout_simps spread_num_def rd_facts receiver_efp_def)

lemma receivers_estimate:
  "estimate_all [blowout_game] [] (Some default_rules) three_receivers =
     Inr [\<lparr>name = ''w1'', position = ''WR'', team = ''KC'', status = None, bye_week = Some 6,
           slot = ''WR'', props = [], pcontext = Some blowout_game, efp = Num receiver_efp,
           ceiling_bonus = Num 0, is_bye_week = False\<rparr>,
          \<lparr>name = ''w2'', position = ''WR'', team = ''KC'', status = None, bye_week = Some 6,
           slot = ''WR'', props = [], pcontext = Some blowout_game, efp = Num receiver_efp,
           ceiling_bonus = Num 0, is_bye_week = False\<rparr>,
          \<lparr>name = ''w3'', position = ''WR'', team = ''KC'', status = None, bye_week = Some 6,
           slot = ''BN'', props = [], pcontext = Some blowout_game, efp = Num receiver_efp,
           ceiling_bonus = Num 0, is_bye_week = False\<rparr>]"
  by (simp add: three_receivers_def estimate_player_def blowout_simps receiver_estimate
      applyMultiTDBonus_def lookup_or_def CEILING_WEIGHTS_def prop_val_def
      player.defs est_player.defs receiver_efp_def rd_facts)

lemma receiver_alone_estimate:
  "estimate_all [blowout_game] [] (Some default_rules) (take 1 three_receivers) =
     Inr [\<lparr>name = ''w1'', position = ''WR'', team = ''KC'', status = None, bye_week = Some 6,
           slot = ''WR'', props = [], pcontext = Some blowout_game, efp = Num receiver_efp,
           ceiling_bonus = Num 0, is_bye_week = False\<rparr>]"
  by (simp add: three_receivers_def estimate_player_def blowout_simps receiver_estimate
      applyMultiTDBonus_def lookup_or_def CEILING_WEIGHTS_def prop_val_def
      player.defs est_player.defs receiver_efp_def rd_facts)

lemma three_equal_zscore:
  "calculateZScore (Num receiver_efp) [Num receiver_efp, Num receiver_efp, Num receiver_efp] = Num 1"
  by (simp add: calculateZScore_def receiver_efp_def rd_facts Let_def)

text \<open>
  Claim C6 on a roster of three wide receivers of the home team, without props, on the
  line where the home team is favoured by 14 with a total of 53. Each of them is
  estimated at \<open>12.166666666666668\<close>, so that the standard deviation of the cohort is 0
  and the z-score of the claim is 0 for each of them. \<^verbatim>\<open>calculateZScore\<close> computes the
  mean \<open>12.166666666666666\<close>, from it the standard deviation \<open>2^-49\<close>, which is not 0,
  and the z-score 1 for each of the three: the pipeline gives them the score
  \<open>1.4464285714285714\<close> and the tier S. The first of them alone on the roster has the
  z-score 0, the score \<open>0.44642857142857145\<close> and the tier B.
\<close>

theorem equal_cohort_zscore:
  "pop_stddev [receiver_efp, receiver_efp, receiver_efp] = 0 \<and>
   z_score receiver_efp [receiver_efp, receiver_efp, receiver_efp] = 0 \<and>
   calculateZScore (Num receiver_efp) [Num receiver_efp, Num receiver_efp, Num receiver_efp]
     = Num 1 \<and>
   (case run_pipeline engine [blowout_game] [] (Some default_rules) example_counts three_receivers of
      Inl e \<Rightarrow> []
    | Inr out \<Rightarrow> map (\<lambda>p. (name p, efp p, score p, tier p)) (fst out @ fst (snd out)))
   = [(''w1'', Num receiver_efp, Num (6514135175303753 / 4503599627370496), Some ''S''),
      (''w2'', Num receiver_efp, Num (6514135175303753 / 4503599627370496), Some ''S''),
      (''w3'', Num receiver_efp, Num (6514135175303753 / 4503599627370496), Some ''S'')] \<and>
   (case run_pipeline engine [blowout_game] [] (Some default_rules) example_counts
           (take 1 three_receivers) of
      Inl e \<Rightarrow> []
    | Inr out \<Rightarrow> map (\<lambda>p. (name p, efp p, score p, tier p)) (fst out @ fst (snd out)))
   = [(''w1'', Num receiver_efp, Num (8042142191733029 / 18014398509481984), Some ''B'')]"
proof (intro conjI)
  show s: "pop_stddev [receiver_efp, receiver_efp, receiver_efp] = 0"
    by (simp add: pop_stddev_def mean_def)
  show "z_score receiver_efp [receiver_efp, receiver_efp, receiver_efp] = 0"
    using s by (simp add: z_score_def)
  show "calculateZScore (Num receiver_efp) [Num receiver_efp, Num receiver_efp, Num receiver_efp]
     = Num 1"
    by (rule three_equal_zscore)
  show "(case run_pipeline engine [blowout_game] [] (Some default_rules) example_counts three_receivers of
      Inl e \<Rightarrow> []
    | Inr out \<Rightarrow> map (\<lambda>p. (name p, efp p, score p, tier p)) (fst out @ fst (snd out)))
   = [(''w1'', Num receiver_efp, Num (6514135175303753 / 4503599627370496), Some ''S''),
      (''w2'', Num receiver_efp, Num (6514135175303753 / 4503599627370496), Some ''S''),
      (''w3'', Num receiver_efp, Num (6514135175303753 / 4503599627370496), Some ''S'')]"
    unfolding run_pipeline_def receivers_estimate
    apply (simp add: assignTiers_def Let_def score_player_def est_player.defs scored_player.defs
      calculateSitStartScore_def three_equal_zscore calculateScriptBonus_def
      calculateScriptLean_def calculateITBonus_def calculateInjuryPenalty_def
      blowout_simps truthy_def spread_num_def)
    apply (simp add: fillLineup_def js_sort_def consistent_def stable_sort_def by_score_desc_def
      fill_step_def Let_def example_counts_def tier_of_def TIER_S_def TIER_A_def TIER_B_def
      TIER_C_def rd_facts receiver_efp_def)
    done
  show "(case run_pipeline engine [blowout_game] [] (Some default_rules) example_counts
           (take 1 three_receivers) of
      Inl e \<Rightarrow> []
    | Inr out \<Rightarrow> map (\<lambda>p. (name p, efp p, score p, tier p)) (fst out @ fst (snd out)))
   = [(''w1'', Num receiver_efp, Num (8042142191733029 / 18014398509481984), Some ''B'')]"
    unfolding run_pipeline_def receiver_alone_estimate
    apply (simp add: assignTiers_def Let_def score_player_def est_player.defs scored_player.defs
      calculateSitStartScore_def calculateZScore_def calculateScriptBonus_def
      calculateScriptLean_def calculateITBonus_def calculateInjuryPenalty_def
      blowout_simps truthy_def spread_num_def receiver_efp_def rd_facts)
    apply (simp add: fillLineup_def js_sort_def consistent_def stable_sort_def by_score_desc_def
      fill_step_def Let_def example_counts_def
      tier_of_def TIER_S_def TIER_A_def TIER_B_def TIER_C_def rd_facts)
    done
qed

section \<open>Injury penalty and tiers\<close>

lemma tier_assignTiers: "map tier (assignTiers ps) = map (\<lambda>p. Some (tier_of (score p))) ps"
  by (simp add: assignTiers_def)

lemma tier_of_NaN: "tier_of NaN = ''D''"
  by (simp add: tier_of_def)

lemma tier_of_low:
  assumes "a \<le> - 63"
  shows "tier_of (Num a) = ''D''"
  using assms by (simp add: tier_of_def TIER_S_def TIER_A_def TIER_B_def TIER_C_def rd_facts)

lemma calculateScriptBonus_le: "calculateScriptBonus pos cx \<le> 1"
  by (auto simp: calculateScriptBonus_def calculateScriptLean_def Let_def rd_facts
      split: option.splits)

lemma calculateITBonus_le:
  assumes "\<forall>its. implied_totals c = Some its \<longrightarrow> homeIT its \<le> 1000"
  shows "calculateITBonus (Some c) \<le> 140"
proof (cases "implied_totals c")
  case None
  then show ?thesis by (simp add: calculateITBonus_def)
next
  case (Some its)
  then have "homeIT its - 21 \<le> of_int 979" using assms by simp
  then have "rd (homeIT its - 21) \<le> of_int 979" by (rule rd_le_int) simp
  then have "rd (homeIT its - 21) / 7 \<le> of_int 140" by simp
  then have "rd (rd (homeIT its - 21) / 7) \<le> of_int 140" by (rule rd_le_int) simp
  then show ?thesis using Some by (simp add: calculateITBonus_def)
qed

lemma out_score_bound:
  assumes "z \<le> 100" "sb \<le> 1" "ib \<le> 140"
  shows "rd (rd (rd (rd (z + rd (rd 0.35 * sb)) + rd (0.25 * ib)) + rd (rd 0.20 * - 999)) + 0) \<le> - 63"
proof -
  have "rd 0.35 * sb \<le> of_int 1" using assms(2) by (simp add: rd_facts)
  then have a: "rd (rd 0.35 * sb) \<le> of_int 1" by (rule rd_le_int) simp
  have "z + rd (rd 0.35 * sb) \<le> of_int 101" using assms(1) a by simp
  then have b: "rd (z + rd (rd 0.35 * sb)) \<le> of_int 101" by (rule rd_le_int) simp
  have "0.25 * ib \<le> of_int 35" using assms(3) by simp
  then have c: "rd (0.25 * ib) \<le> of_int 35" by (rule rd_le_int) simp
  have "rd (z + rd (rd 0.35 * sb)) + rd (0.25 * ib) \<le> of_int 136" using b c by simp
  then have d: "rd (rd (z + rd (rd 0.35 * sb)) + rd (0.25 * ib)) \<le> of_int 136"
    by (rule rd_le_int) simp
  have e: "rd (rd 0.20 * - 999) \<le> - 199" by (simp add: rd_facts)
  have "rd (rd (z + rd (rd 0.35 * sb)) + rd (0.25 * ib)) + rd (rd 0.20 * - 999) \<le> of_int (- 63)"
    using d e by simp
  then have "rd (rd (rd (z + rd (rd 0.35 * sb)) + rd (0.25 * ib)) + rd (rd 0.20 * - 999))
      \<le> of_int (- 63)"
    by (rule rd_le_int) simp
  then have "rd (rd (rd (z + rd (rd 0.35 * sb)) + rd (0.25 * ib)) + rd (rd 0.20 * - 999)) + 0
      \<le> of_int (- 63)"
    by simp
  then have "rd (rd (rd (rd (z + rd (rd 0.35 * sb)) + rd (0.25 * ib)) + rd (rd 0.20 * - 999)) + 0)
      \<le> of_int (- 63)"
    by (rule rd_le_int) simp
  then show ?thesis by simp
qed

lemma out_tier:
  assumes "calculateInjuryPenalty (status pl) = - 999"
    and "\<forall>z. calculateZScore e (cohort pl allPlayers) = Num z \<longrightarrow> z \<le> 100"
    and "\<forall>its. implied_totals c = Some its \<longrightarrow> homeIT its \<le> 1000"
  shows "tier_of (calculateSitStartScore e (Some c) pl rules allPlayers) = ''D''"
proof (cases "calculateZScore e (cohort pl allPlayers)")
  case NaN
  then show ?thesis
    by (simp add: calculateSitStartScore_def cohort_def Let_def tier_of_NaN)
next
  case (Num z)
  then have z: "z \<le> 100" using assms(2) by simp
  have "calculateSitStartScore e (Some c) pl rules allPlayers =
      Num (rd (rd (rd (rd (z + rd (rd 0.35 * calculateScriptBonus (position pl) (Some c)))
                       + rd (0.25 * calculateITBonus (Some c))) + rd (rd 0.20 * - 999)) + 0))"
    using Num assms(1) by (simp add: calculateSitStartScore_def cohort_def Let_def)
  then show ?thesis
    using out_score_bound [OF z calculateScriptBonus_le calculateITBonus_le [OF assms(3)]]
    by (simp only: tier_of_low)
qed

text \<open>
  Claim C3. The injury penalty is 0 without a status and otherwise read off the
  upper-cased status code: -0.3 for \<^verbatim>\<open>Q\<close> (questionable), -0.8 for \<^verbatim>\<open>D\<close> (doubtful),
  -999 for \<^verbatim>\<open>O\<close>, \<^verbatim>\<open>IR\<close>, \<^verbatim>\<open>PUP\<close> and \<^verbatim>\<open>SUSP\<close>, and 0 for any other code. A player
  with the penalty -999 and a game context is classified at tier D, on every line whose
  home implied total is at most 1000 and in every cohort in which the z-score of the
  player is at most 100 (or is not a number).
\<close>

theorem injury_penalty:
  "calculateInjuryPenalty None = 0 \<and>
   calculateInjuryPenalty (Some s) = injury_table (toUpperCase s) \<and>
   calculateInjuryPenalty (Some ''Q'') = - rd 0.3 \<and>
   calculateInjuryPenalty (Some ''D'') = - rd 0.8 \<and>
   calculateInjuryPenalty (Some ''O'') = - 999 \<and>
   calculateInjuryPenalty (Some ''IR'') = - 999 \<and>
   calculateInjuryPenalty (Some ''PUP'') = - 999 \<and>
   calculateInjuryPenalty (Some ''SUSP'') = - 999 \<and>
   (calculateInjuryPenalty (status pl) = - 999 \<and>
    score q = calculateSitStartScore e (Some c) pl rules allPlayers \<and>
    (\<forall>z. calculateZScore e (cohort pl allPlayers) = Num z \<longrightarrow> z \<le> 100) \<and>
    (\<forall>its. implied_totals c = Some its \<longrightarrow> homeIT its \<le> 1000) \<longrightarrow>
      map tier (assignTiers [q]) = [Some ''D''])"
proof (intro conjI impI)
  show "calculateInjuryPenalty (Some s) = injury_table (toUpperCase s)"
    by (cases "s = []") (simp_all add: calculateInjuryPenalty_def injury_table_def Let_def toUpperCase_def)
next
  assume h: "calculateInjuryPenalty (status pl) = - 999 \<and>
    score q = calculateSitStartScore e (Some c) pl rules allPlayers \<and>
    (\<forall>z. calculateZScore e (cohort pl allPlayers) = Num z \<longrightarrow> z \<le> 100) \<and>
    (\<forall>its. implied_totals c = Some its \<longrightarrow> homeIT its \<le> 1000)"
  then have "tier_of (score q) = ''D''"
    using out_tier [of pl e allPlayers c rules] by simp
  then show "map tier (assignTiers [q]) = [Some ''D'']"
    by (simp add: tier_assignTiers)
qed (simp_all add: calculateInjuryPenalty_def toUpperCase_def upper_char_def)

theorem injury_penalty_witness:
  "calculateInjuryPenalty (status out_est) = - 999 \<and>
   score out_scored =
     calculateSitStartScore (Num 12.5) (Some home_favorite_game) out_est (Some default_rules) [out_est] \<and>
   calculateZScore (Num 12.5) (cohort out_est [out_est]) = Num 0 \<and>
   implied_totals home_favorite_game = Some \<lparr>homeIT = 24, awayIT = 18\<rparr> \<and>
   map tier (assignTiers [out_scored]) = [Some ''D'']"
proof -
  have z: "calculateZScore (Num 12.5) (cohort out_est [out_est]) = Num 0"
    by (simp add: cohort_def out_est_def player.defs est_player.defs calculateZScore_def rd_facts)
  have i: "implied_totals home_favorite_game = Some \<lparr>homeIT = 24, awayIT = 18\<rparr>"
    by (rule home_game_simps)
  have h: "calculateInjuryPenalty (status out_est) = - 999 \<and>
      score out_scored =
        calculateSitStartScore (Num 12.5) (Some home_favorite_game) out_est (Some default_rules) [out_est] \<and>
      (\<forall>z. calculateZScore (Num 12.5) (cohort out_est [out_est]) = Num z \<longrightarrow> z \<le> 100) \<and>
      (\<forall>its. implied_totals home_favorite_game = Some its \<longrightarrow> homeIT its \<le> 1000)"
    unfolding z i
    by (simp add: out_est_def out_scored_def score_player_def player.defs est_player.defs
        scored_player.defs calculateInjuryPenalty_def toUpperCase_def upper_char_def)
  have "map tier (assignTiers [out_scored]) = [Some ''D'']"
    by (rule injury_penalty [where pl = out_est and q = out_scored and e = "Num 12.5"
        and c = home_favorite_game and rules = "Some default_rules" and allPlayers = "[out_est]",
        THEN conjunct2, THEN conjunct2, THEN conjunct2, THEN conjunct2, THEN conjunct2,
        THEN conjunct2, THEN conjunct2, THEN conjunct2, THEN mp, OF h])
  then show ?thesis using h z i by simp
qed

section \<open>The lineup\<close>

subsection \<open>Sorting\<close>

lemma mset_insert_by: "mset (insert_by cmp x ys) = add_mset x (mset ys)"
  by (induction ys) simp_all

lemma mset_stable_sort: "mset (stable_sort cmp xs) = mset xs"
  by (induction xs) (simp_all add: stable_sort_def mset_insert_by)

lemma stable_sort_Cons: "stable_sort cmp (x # xs) = insert_by cmp x (stable_sort cmp xs)"
  by (simp add: stable_sort_def)

lemma stable_sort_Nil: "stable_sort cmp [] = []"
  by (simp add: stable_sort_def)

lemma set_stable_sort: "set (stable_sort cmp xs) = set xs"
  by (metis mset_stable_sort set_mset_mset)

text \<open>Whatever the engine does, the sorted array is a permutation of the array.\<close>

lemma mset_js_sort: "mset (js_sort engine cmp xs) = mset xs"
  by (simp add: js_sort_def mset_stable_sort)

lemma set_js_sort: "set (js_sort engine cmp xs) = set xs"
  by (metis mset_js_sort set_mset_mset)

lemma length_js_sort: "length (js_sort engine cmp xs) = length xs"
  by (metis mset_js_sort size_mset)

lemma js_sort_Nil: "js_sort engine cmp [] = []"
  using mset_js_sort [of engine cmp "[]"] by simp

lemma js_sort_single: "js_sort engine cmp [x] = [x]"
  using mset_js_sort [of engine cmp "[x]"] by simp

text \<open>The comparators are consistent when every score is a number.\<close>

lemma consistent_desc: "consistent by_score_desc xs \<longleftrightarrow> (\<forall>p\<in>set xs. numeric p)"
proof
  assume c: "consistent by_score_desc xs"
  show "\<forall>p\<in>set xs. numeric p"
  proof
    fix p assume "p \<in> set xs"
    then have "by_score_desc p p \<noteq> NaN"
      using c by (simp add: consistent_def list_all_iff)
    then show "numeric p"
      by (cases "score p") (simp_all add: by_score_desc_def numeric_def)
  qed
next
  assume n: "\<forall>p\<in>set xs. numeric p"
  have "by_score_desc a b \<noteq> NaN" if "a \<in> set xs" "b \<in> set xs" for a b
    using n that by (cases "score a"; cases "score b") (auto simp: by_score_desc_def numeric_def)
  then show "consistent by_score_desc xs"
    by (simp add: consistent_def list_all_iff)
qed

lemma js_sort_numeric:
  "\<forall>p\<in>set xs. numeric p \<Longrightarrow> js_sort engine by_score_desc xs = stable_sort by_score_desc xs"
  by (simp add: js_sort_def consistent_desc)

lemma desc_numeric:
  "numeric a \<Longrightarrow> numeric b \<Longrightarrow> jgt (by_score_desc a b) 0 = (score_num a < score_num b)"
  by (cases "score a"; cases "score b")
     (simp_all add: by_score_desc_def score_num_def numeric_def rd_pos_iff)

lemma sorted_insert_by:
  assumes "numeric x" "\<forall>y\<in>set ys. numeric y"
    and "sorted_wrt (\<lambda>a b. score_num b \<le> score_num a) ys"
  shows "sorted_wrt (\<lambda>a b. score_num b \<le> score_num a) (insert_by by_score_desc x ys)"
  using assms
proof (induction ys)
  case Nil
  then show ?case by simp
next
  case (Cons y ys)
  show ?case
  proof (cases "score_num x < score_num y")
    case True
    have "set (insert_by by_score_desc x ys) = insert x (set ys)"
      by (metis mset_insert_by set_mset_add_mset_insert set_mset_mset)
    then show ?thesis
      using True Cons by (auto simp: desc_numeric)
  next
    case False
    then show ?thesis
      using Cons.prems by (auto simp: desc_numeric)
  qed
qed

lemma sorted_stable_sort:
  "\<forall>p\<in>set xs. numeric p \<Longrightarrow>
   sorted_wrt (\<lambda>a b. score_num b \<le> score_num a) (stable_sort by_score_desc xs)"
  by (induction xs) (simp_all add: stable_sort_Nil stable_sort_Cons sorted_insert_by set_stable_sort)

lemma stable_insert_by:
  "filter (\<lambda>p. score p = k) (insert_by by_score_desc x ys) = filter (\<lambda>p. score p = k) (x # ys)"
proof (induction ys)
  case Nil
  then show ?case by simp
next
  case (Cons y ys)
  have "jgt (by_score_desc x y) 0 \<Longrightarrow> \<not> (score x = k \<and> score y = k)"
    by (cases "score x"; cases "score y") (auto simp: by_score_desc_def rd_zero)
  then show ?case using Cons by auto
qed

lemma stable_stable_sort:
  "filter (\<lambda>p. score p = k) (stable_sort by_score_desc xs) = filter (\<lambda>p. score p = k) xs"
  by (induction xs) (simp_all add: stable_sort_Nil stable_sort_Cons stable_insert_by)


subsection \<open>The loop of \<^verbatim>\<open>fillLineup\<close>\<close>

lemma fill_step_starters:
  "filter (\<lambda>p. position p = pos) (fst (fill_step cs st x)) =
     filter (\<lambda>p. position p = pos) (fst st) @
     map (\<lambda>p. p\<lparr>slot := pos\<rparr>) (take (room cs (snd (snd st)) pos) (filter (\<lambda>p. position p = pos) [x]))"
  by (auto simp: fill_step_def Let_def room_def needed_def split: option.splits)

lemma fill_step_bench:
  "filter (\<lambda>p. position p = pos) (fst (snd (fill_step cs st x))) =
     filter (\<lambda>p. position p = pos) (fst (snd st)) @
     map (\<lambda>p. p\<lparr>slot := ''BN''\<rparr>) (drop (room cs (snd (snd st)) pos) (filter (\<lambda>p. position p = pos) [x]))"
  by (auto simp: fill_step_def Let_def room_def needed_def split: option.splits)

lemma fill_step_room:
  "room cs (snd (snd (fill_step cs st x))) pos =
     room cs (snd (snd st)) pos - length (filter (\<lambda>p. position p = pos) [x])"
  by (auto simp: fill_step_def Let_def room_def needed_def split: option.splits)

lemma take_filter_Cons:
  "take n (filter P (x # xs)) = take n (filter P [x]) @ take (n - length (filter P [x])) (filter P xs)"
  by (cases n) auto

lemma drop_filter_Cons:
  "drop n (filter P (x # xs)) = drop n (filter P [x]) @ drop (n - length (filter P [x])) (filter P xs)"
  by (cases n) auto

lemma fill_foldl_starters:
  "filter (\<lambda>p. position p = pos) (fst (foldl (fill_step cs) st xs)) =
     filter (\<lambda>p. position p = pos) (fst st) @
     map (\<lambda>p. p\<lparr>slot := pos\<rparr>) (take (room cs (snd (snd st)) pos) (filter (\<lambda>p. position p = pos) xs))"
proof (induction xs arbitrary: st)
  case Nil
  then show ?case by simp
next
  case (Cons x xs)
  show ?case
    unfolding foldl_Cons Cons.IH fill_step_starters fill_step_room take_filter_Cons [of _ _ x xs]
    by simp
qed

lemma fill_foldl_bench:
  "filter (\<lambda>p. position p = pos) (fst (snd (foldl (fill_step cs) st xs))) =
     filter (\<lambda>p. position p = pos) (fst (snd st)) @
     map (\<lambda>p. p\<lparr>slot := ''BN''\<rparr>) (drop (room cs (snd (snd st)) pos) (filter (\<lambda>p. position p = pos) xs))"
proof (induction xs arbitrary: st)
  case Nil
  then show ?case by simp
next
  case (Cons x xs)
  show ?case
    unfolding foldl_Cons Cons.IH fill_step_bench fill_step_room drop_filter_Cons [of _ _ x xs]
    by simp
qed

lemma fill_foldl_length:
  "length (fst (foldl (fill_step cs) st xs)) + length (fst (snd (foldl (fill_step cs) st xs))) =
     length (fst st) + length (fst (snd st)) + length xs"
proof (induction xs arbitrary: st)
  case Nil
  then show ?case by simp
next
  case (Cons x xs)
  have "length (fst (fill_step cs st x)) + length (fst (snd (fill_step cs st x))) =
      length (fst st) + length (fst (snd st)) + 1"
    by (auto simp: fill_step_def Let_def split: option.splits)
  then show ?case by (simp add: Cons.IH)
qed

lemma fill_foldl_slots:
  assumes "\<forall>p\<in>set (fst st). slot p = position p" "\<forall>p\<in>set (fst (snd st)). slot p = ''BN''"
  shows "(\<forall>p\<in>set (fst (foldl (fill_step cs) st xs)). slot p = position p) \<and>
         (\<forall>p\<in>set (fst (snd (foldl (fill_step cs) st xs))). slot p = ''BN'')"
  using assms
proof (induction xs arbitrary: st)
  case Nil
  then show ?case by simp
next
  case (Cons x xs)
  have "(\<forall>p\<in>set (fst (fill_step cs st x)). slot p = position p) \<and>
        (\<forall>p\<in>set (fst (snd (fill_step cs st x))). slot p = ''BN'')"
    using Cons.prems by (auto simp: fill_step_def Let_def split: option.splits)
  then show ?case using Cons.IH [of "fill_step cs st x"] by simp
qed

lemma fill_foldl_mset:
  "mset (map (\<lambda>p. p\<lparr>slot := s\<rparr>) (fst (foldl (fill_step cs) st xs) @ fst (snd (foldl (fill_step cs) st xs)))) =
   mset (map (\<lambda>p. p\<lparr>slot := s\<rparr>) (fst st @ fst (snd st) @ xs))"
proof (induction xs arbitrary: st)
  case Nil
  then show ?case by simp
next
  case (Cons x xs)
  let ?f = "\<lambda>p :: scored_player. p\<lparr>slot := s\<rparr>"
  let ?st = "fill_step cs st x"
  have step: "mset (map ?f (fst ?st @ fst (snd ?st))) = mset (map ?f (fst st @ fst (snd st) @ [x]))"
    by (auto simp: fill_step_def Let_def split: option.splits)
  have "mset (map ?f (fst (foldl (fill_step cs) ?st xs) @ fst (snd (foldl (fill_step cs) ?st xs))))
      = mset (map ?f (fst ?st @ fst (snd ?st) @ xs))"
    by (rule Cons.IH)
  also have "\<dots> = mset (map ?f (fst ?st @ fst (snd ?st))) + mset (map ?f xs)"
    by simp
  also have "\<dots> = mset (map ?f (fst st @ fst (snd st) @ [x])) + mset (map ?f xs)"
    by (simp only: step)
  also have "\<dots> = mset (map ?f (fst st @ fst (snd st) @ x # xs))"
    by simp
  finally show ?case by simp
qed

lemma room_initial: "room cs (\<lambda>pos. map_option (\<lambda>n. 0) (cs pos)) pos = needed cs pos"
  by (simp add: room_def needed_def split: option.splits)


lemma fillLineup_starters:
  "filter (\<lambda>p. position p = pos) (fst (fillLineup engine ps cs)) =
     map (\<lambda>p. p\<lparr>slot := pos\<rparr>)
       (take (needed cs pos) (filter (\<lambda>p. position p = pos) (js_sort engine by_score_desc ps)))"
  by (simp add: fillLineup_def Let_def fill_foldl_starters room_initial)

lemma fillLineup_bench:
  "filter (\<lambda>p. position p = pos) (snd (fillLineup engine ps cs)) =
     map (\<lambda>p. p\<lparr>slot := ''BN''\<rparr>)
       (drop (needed cs pos) (filter (\<lambda>p. position p = pos) (js_sort engine by_score_desc ps)))"
  by (simp add: fillLineup_def Let_def fill_foldl_bench room_initial)

lemma fillLineup_length:
  "length (fst (fillLineup engine ps cs)) + length (snd (fillLineup engine ps cs)) = length ps"
  using fill_foldl_length [of cs "([], [], \<lambda>pos. map_option (\<lambda>n. 0) (cs pos))"
      "js_sort engine by_score_desc ps"]
  by (simp add: fillLineup_def Let_def length_js_sort)

lemma fillLineup_slots:
  "(\<forall>p\<in>set (fst (fillLineup engine ps cs)). slot p = position p) \<and>
   (\<forall>p\<in>set (snd (fillLineup engine ps cs)). slot p = ''BN'')"
  using fill_foldl_slots [of "([], [], \<lambda>pos. map_option (\<lambda>n. 0) (cs pos))" cs
      "js_sort engine by_score_desc ps"]
  by (simp add: fillLineup_def Let_def)

lemma fillLineup_mset:
  "mset (map (\<lambda>p. p\<lparr>slot := s\<rparr>) (fst (fillLineup engine ps cs) @ snd (fillLineup engine ps cs))) =
   mset (map (\<lambda>p. p\<lparr>slot := s\<rparr>) ps)"
  using fill_foldl_mset [of s cs "([], [], \<lambda>pos. map_option (\<lambda>n. 0) (cs pos))"
      "js_sort engine by_score_desc ps"]
  by (simp add: fillLineup_def Let_def mset_js_sort)

lemma fillLineup_count:
  "length (filter (\<lambda>p. position p = pos) (fst (fillLineup engine ps cs))) \<le> needed cs pos"
  by (simp add: fillLineup_starters)

lemma fillLineup_count_slot:
  "length (filter (\<lambda>p. slot p = pos) (fst (fillLineup engine ps cs))) \<le> needed cs pos"
proof -
  have "filter (\<lambda>p. slot p = pos) (fst (fillLineup engine ps cs)) =
        filter (\<lambda>p. position p = pos) (fst (fillLineup engine ps cs))"
    using fillLineup_slots [of engine ps cs] by (intro filter_cong) auto
  then show ?thesis by (simp add: fillLineup_count)
qed

text \<open>
  Claim C8. \<^verbatim>\<open>fillLineup\<close> sorts the players into a permutation of the input; when the
  scores are numbers it is the permutation of the stable sort, which is descending in
  score and keeps players of equal score in input order. It then gives each player the
  slot of the own position while that slot has room and the bench otherwise, so that
  the starters of a position are the first players of that position in sorted order, as
  many as the supplied count, and the bench holds the rest. For every position the
  starters at that position, and the starters labelled with it, are at most the supplied
  count, and starters and bench together are as many as the input players: they are the
  input players, each once, with a new slot.
\<close>

theorem fillLineup_invariants:
  "mset (js_sort engine by_score_desc ps) = mset ps \<and>
   ((\<forall>p\<in>set ps. numeric p) \<longrightarrow>
      js_sort engine by_score_desc ps = stable_sort by_score_desc ps \<and>
      sorted_wrt (\<lambda>a b. score_num b \<le> score_num a) (js_sort engine by_score_desc ps) \<and>
      filter (\<lambda>p. score p = k) (js_sort engine by_score_desc ps) = filter (\<lambda>p. score p = k) ps) \<and>
   filter (\<lambda>p. position p = pos) (fst (fillLineup engine ps cs)) =
     map (\<lambda>p. p\<lparr>slot := pos\<rparr>)
       (take (needed cs pos) (filter (\<lambda>p. position p = pos) (js_sort engine by_score_desc ps))) \<and>
   filter (\<lambda>p. position p = pos) (snd (fillLineup engine ps cs)) =
     map (\<lambda>p. p\<lparr>slot := ''BN''\<rparr>)
       (drop (needed cs pos) (filter (\<lambda>p. position p = pos) (js_sort engine by_score_desc ps))) \<and>
   length (filter (\<lambda>p. position p = pos) (fst (fillLineup engine ps cs))) \<le> needed cs pos \<and>
   length (filter (\<lambda>p. slot p = pos) (fst (fillLineup engine ps cs))) \<le> needed cs pos \<and>
   length (fst (fillLineup engine ps cs)) + length (snd (fillLineup engine ps cs)) = length ps \<and>
   mset (map (\<lambda>p. p\<lparr>slot := s\<rparr>) (fst (fillLineup engine ps cs) @ snd (fillLineup engine ps cs))) =
     mset (map (\<lambda>p. p\<lparr>slot := s\<rparr>) ps)"
proof (intro conjI impI)
  show "mset (js_sort engine by_score_desc ps) = mset ps"
    by (rule mset_js_sort)
  show "filter (\<lambda>p. position p = pos) (fst (fillLineup engine ps cs)) =
     map (\<lambda>p. p\<lparr>slot := pos\<rparr>)
       (take (needed cs pos) (filter (\<lambda>p. position p = pos) (js_sort engine by_score_desc ps)))"
    by (rule fillLineup_starters)
  show "filter (\<lambda>p. position p = pos) (snd (fillLineup engine ps cs)) =
     map (\<lambda>p. p\<lparr>slot := ''BN''\<rparr>)
       (drop (needed cs pos) (filter (\<lambda>p. position p = pos) (js_sort engine by_score_desc ps)))"
    by (rule fillLineup_bench)
  show "length (filter (\<lambda>p. position p = pos) (fst (fillLineup engine ps cs))) \<le> needed cs pos"
    by (rule fillLineup_count)
  show "length (filter (\<lambda>p. slot p = pos) (fst (fillLineup engine ps cs))) \<le> needed cs pos"
    by (rule fillLineup_count_slot)
  show "length (fst (fillLineup engine ps cs)) + length (snd (fillLineup engine ps cs)) = length ps"
    by (rule fillLineup_length)
  show "mset (map (\<lambda>p. p\<lparr>slot := s\<rparr>) (fst (fillLineup engine ps cs) @ snd (fillLineup engine ps cs))) =
     mset (map (\<lambda>p. p\<lparr>slot := s\<rparr>) ps)"
    by (rule fillLineup_mset)
next
  assume n: "\<forall>p\<in>set ps. numeric p"
  show e: "js_sort engine by_score_desc ps = stable_sort by_score_desc ps"
    using n by (rule js_sort_numeric)
  show "sorted_wrt (\<lambda>a b. score_num b \<le> score_num a) (js_sort engine by_score_desc ps)"
    unfolding e using n by (rule sorted_stable_sort)
  show "filter (\<lambda>p. score p = k) (js_sort engine by_score_desc ps) = filter (\<lambda>p. score p = k) ps"
    unfolding e by (rule stable_stable_sort)
qed

lemma concat_empty_rows: "concat (map (\<lambda>x. []) xs) = []"
  by (induction xs) simp_all

lemma tryFlexSwaps_no_flex:
  assumes "\<forall>p\<in>set starters. slot p = position p"
  shows "tryFlexSwaps engine starters bench = []"
proof -
  have "filter (\<lambda>p. flex_eligible p \<and> slot p = ''FLEX'') starters = []"
    using assms by (auto simp: filter_empty_conv flex_eligible_def)
  then show ?thesis
    by (simp add: tryFlexSwaps_def js_sort_Nil concat_empty_rows)
qed

text \<open>
  Claim C9. Whatever the slot requirements, with a FLEX requirement or not, every
  starter of \<^verbatim>\<open>fillLineup\<close> has the own position as slot, no RB, WR or TE of the lineup
  has the slot \<^verbatim>\<open>FLEX\<close>, and \<^verbatim>\<open>tryFlexSwaps\<close> on that lineup returns the empty list, also
  in the pipeline of the handler.
\<close>

theorem flex_never_assigned:
  "(\<forall>p\<in>set (fst (fillLineup engine ps cs)). slot p = position p) \<and>
   (\<forall>p\<in>set (fst (fillLineup engine ps cs) @ snd (fillLineup engine ps cs)).
      flex_eligible p \<longrightarrow> slot p \<noteq> ''FLEX'') \<and>
   tryFlexSwaps engine (fst (fillLineup engine ps cs)) (snd (fillLineup engine ps cs)) = [] \<and>
   (run_pipeline engine lines allProps rules cs roster = Inr (starters, bench, flexOptions) \<longrightarrow>
      flexOptions = [])"
proof (intro conjI impI)
  show s: "\<forall>p\<in>set (fst (fillLineup engine ps cs)). slot p = position p"
    using fillLineup_slots by blast
  show "\<forall>p\<in>set (fst (fillLineup engine ps cs) @ snd (fillLineup engine ps cs)).
      flex_eligible p \<longrightarrow> slot p \<noteq> ''FLEX''"
    using fillLineup_slots [of engine ps cs] by (auto simp: flex_eligible_def)
  show "tryFlexSwaps engine (fst (fillLineup engine ps cs)) (snd (fillLineup engine ps cs)) = []"
    using s by (rule tryFlexSwaps_no_flex)
next
  assume "run_pipeline engine lines allProps rules cs roster = Inr (starters, bench, flexOptions)"
  then show "flexOptions = []"
    using fillLineup_slots
    by (auto simp: run_pipeline_def Let_def tryFlexSwaps_no_flex split: sum.splits)
qed

lemma example_numeric: "\<forall>p\<in>set example_scored. numeric p"
  by (simp add: example_scored_def numeric_def mk_scored_def)

lemma example_sorted:
  "js_sort engine by_score_desc example_scored =
     [mk_scored ''b'' ''RB'' 3, mk_scored ''c'' ''WR'' 2, mk_scored ''d'' ''RB'' 2, mk_scored ''a'' ''RB'' 1]"
  unfolding js_sort_numeric [OF example_numeric]
  by (simp add: example_scored_def stable_sort_def by_score_desc_def mk_scored_def rd_pos_iff)

lemma example_lineup:
  "fillLineup engine example_scored example_counts =
     ([(mk_scored ''b'' ''RB'' 3)\<lparr>slot := ''RB''\<rparr>, (mk_scored ''c'' ''WR'' 2)\<lparr>slot := ''WR''\<rparr>,
       (mk_scored ''d'' ''RB'' 2)\<lparr>slot := ''RB''\<rparr>],
      [(mk_scored ''a'' ''RB'' 1)\<lparr>slot := ''BN''\<rparr>])"
  unfolding fillLineup_def example_sorted Let_def
  by (simp add: fill_step_def example_counts_def mk_scored_def Let_def)

theorem fillLineup_invariants_witness:
  "sorted_wrt (\<lambda>a b. score_num b \<le> score_num a) (js_sort reversing_engine by_score_desc example_scored) \<and>
   map name (js_sort reversing_engine by_score_desc example_scored) = [''b'', ''c'', ''d'', ''a''] \<and>
   map (\<lambda>p. (name p, slot p)) (fst (fillLineup reversing_engine example_scored example_counts)) =
     [(''b'', ''RB''), (''c'', ''WR''), (''d'', ''RB'')] \<and>
   map (\<lambda>p. (name p, slot p)) (snd (fillLineup reversing_engine example_scored example_counts)) = [(''a'', ''BN'')] \<and>
   length (filter (\<lambda>p. position p = ''RB'') (fst (fillLineup reversing_engine example_scored example_counts)))
     \<le> needed example_counts ''RB''"
proof -
  note t = fillLineup_invariants [where ps = example_scored and k = "Num 2" and pos = "''RB''"
      and cs = example_counts and s = "''BN''" and engine = reversing_engine]
  have "sorted_wrt (\<lambda>a b. score_num b \<le> score_num a) (js_sort reversing_engine by_score_desc example_scored)"
    using t example_numeric by blast
  moreover have "length (filter (\<lambda>p. position p = ''RB'') (fst (fillLineup reversing_engine example_scored example_counts)))
     \<le> needed example_counts ''RB''"
    using t by blast
  ultimately show ?thesis
    by (simp add: example_sorted example_lineup mk_scored_def)
qed

theorem flex_never_assigned_witness:
  "example_counts ''FLEX'' = Some 1 \<and>
   map (\<lambda>p. (position p, slot p)) (fst (fillLineup reversing_engine example_scored example_counts)) =
     [(''RB'', ''RB''), (''WR'', ''WR''), (''RB'', ''RB'')] \<and>
   slot ((mk_scored ''c'' ''WR'' 2)\<lparr>slot := ''WR''\<rparr>) \<noteq> ''FLEX'' \<and>
   tryFlexSwaps reversing_engine (fst (fillLineup reversing_engine example_scored example_counts))
                (snd (fillLineup reversing_engine example_scored example_counts)) = []"
proof -
  note t = flex_never_assigned [of reversing_engine example_scored example_counts]
  have m: "(mk_scored ''c'' ''WR'' 2)\<lparr>slot := ''WR''\<rparr>
      \<in> set (fst (fillLineup reversing_engine example_scored example_counts) @
             snd (fillLineup reversing_engine example_scored example_counts))"
    by (simp add: example_lineup)
  have f: "flex_eligible ((mk_scored ''c'' ''WR'' 2)\<lparr>slot := ''WR''\<rparr>)"
    by (simp add: flex_eligible_def mk_scored_def)
  have "slot ((mk_scored ''c'' ''WR'' 2)\<lparr>slot := ''WR''\<rparr>) \<noteq> ''FLEX''"
    using t m f by blast
  moreover have "tryFlexSwaps reversing_engine (fst (fillLineup reversing_engine example_scored example_counts))
                (snd (fillLineup reversing_engine example_scored example_counts)) = []"
    using t by blast
  moreover have "example_counts ''FLEX'' = Some 1"
    by (simp add: example_counts_def)
  moreover have "map (\<lambda>p. (position p, slot p)) (fst (fillLineup reversing_engine example_scored example_counts)) =
     [(''RB'', ''RB''), (''WR'', ''WR''), (''RB'', ''RB'')]"
    by (simp add: example_lineup mk_scored_def)
  ultimately show ?thesis by blast
qed

section \<open>The pipeline\<close>

lemma bye_estimate:
  "estimate_all [home_favorite_game] [(''Q'', example_props)] (Some default_rules) bye_roster =
     Inr [\<lparr>name = ''Q'', position = ''QB'', team = ''SF'', status = Some ''O'', bye_week = Some 9,
           slot = ''QB'', props = [], pcontext = None, efp = Num 0, ceiling_bonus = Num 0,
           is_bye_week = True\<rparr>,
          \<lparr>name = ''R'', position = ''RB'', team = ''KC'', status = None, bye_week = Some 6,
           slot = ''RB'', props = [], pcontext = Some home_favorite_game, efp = Num 12.5,
           ceiling_bonus = Num 0, is_bye_week = False\<rparr>]"
  by (simp add: bye_roster_def estimate_player_def home_game_teams home_game_simps
      expectedFantasyPoints_def applyFallback_cases claimed_fallback_def own_spread_def
      spec_baseline_def fallback_script_def
      applyMultiTDBonus_formula position_weight_def prop_val_def
      player.defs est_player.defs rd_facts)

text \<open>
  What the two loops and \<^verbatim>\<open>assignTiers\<close> do to a player without a game: the first loop
  marks the player and sets \<^verbatim>\<open>efp\<close> to 0, the second sets the score 0 and the tier
  \<^verbatim>\<open>BYE\<close>, and \<^verbatim>\<open>assignTiers\<close> replaces that tier by the tier of the score 0.
\<close>

lemma estimate_player_no_game:
  assumes "getGameContext lines (team pl) = None"
  shows "\<exists>x. estimate_player lines allProps rules pl = Inr x \<and> is_bye_week x \<and> efp x = Num 0"
  using assms by (simp add: estimate_player_def player.defs est_player.defs)

lemma score_player_bye:
  assumes "is_bye_week pl"
  shows "score (score_player rules allPlayers pl) = Num 0"
    and "tier (score_player rules allPlayers pl) = Some ''BYE''"
    and "map tier (assignTiers [score_player rules allPlayers pl]) = [Some ''B'']"
  using assms
  by (simp_all add: score_player_def est_player.defs scored_player.defs assignTiers_def tier_of_def
      TIER_S_def TIER_A_def TIER_B_def rd_facts)

text \<open>
  Claim C1 on a roster whose quarterback has no game (and has props and the status
  \<^verbatim>\<open>O\<close>): in the lineup the \<^verbatim>\<open>efp\<close> and the \<^verbatim>\<open>score\<close> of the quarterback are 0, but the
  tier is \<^verbatim>\<open>B\<close>, not \<^verbatim>\<open>BYE\<close>: \<^verbatim>\<open>assignTiers\<close> runs after the loop that sets \<^verbatim>\<open>BYE\<close> and
  classifies the score 0. The running back, alone in the cohort of players with a game,
  has z-score 0 and the score \<open>0.3171428571428571\<close>.
\<close>

theorem bye_player_tier:
  "(case run_pipeline engine [home_favorite_game] [(''Q'', example_props)] (Some default_rules)
          example_counts bye_roster of
      Inl e \<Rightarrow> []
    | Inr out \<Rightarrow>
        map (\<lambda>p. (name p, is_bye_week p, efp p, score p, tier p)) (fst out @ fst (snd out)))
   = [(''R'', False, Num 12.5, Num (5713137813007143 / 18014398509481984), Some ''B''),
      (''Q'', True, Num 0, Num 0, Some ''B'')]"
  unfolding run_pipeline_def bye_estimate
  apply (simp add: assignTiers_def Let_def score_player_def est_player.defs scored_player.defs
      calculateSitStartScore_def calculateZScore_def calculateScriptBonus_def
      calculateScriptLean_def calculateITBonus_def calculateInjuryPenalty_def
      home_game_simps home_game_teams truthy_def spread_num_def rd_facts)
  apply (simp add: fillLineup_def js_sort_def consistent_def stable_sort_def by_score_desc_def
      fill_step_def Let_def example_counts_def tier_of_def TIER_S_def TIER_A_def TIER_B_def
      TIER_C_def rd_facts rd_pos_iff)
  done

section \<open>Failures\<close>

lemma add_stat_Inr: "\<exists>v. add_stat ps (Some r) kf (Inr e) = Inr v"
  by (simp add: add_stat_def split: option.splits)

lemma fold_add_stat_Inr: "\<exists>v. fold (add_stat ps (Some r)) kfs (Inr e) = Inr v"
proof (induction kfs arbitrary: e)
  case Nil
  then show ?case by simp
next
  case (Cons kf kfs)
  obtain v where "add_stat ps (Some r) kf (Inr e) = Inr v"
    using add_stat_Inr by blast
  then show ?case using Cons.IH [of v] by simp
qed

lemma expectedFantasyPoints_total: "\<exists>v. expectedFantasyPoints prs (Some r) pos cx = Inr v"
  by (cases prs) (simp_all add: expectedFantasyPoints_def fold_add_stat_Inr)

lemma applyMultiTDBonus_total: "\<exists>v. applyMultiTDBonus e (Some ps) (Some r) pos = Inr v"
  by (simp add: applyMultiTDBonus_formula)

lemma estimate_player_total: "\<exists>x. estimate_player lines allProps (Some r) pl = Inr x"
proof (cases "getGameContext lines (team pl)")
  case None
  then show ?thesis by (simp add: estimate_player_def)
next
  case (Some g)
  let ?ps = "case map_of allProps (name pl) of None \<Rightarrow> [] | Some x \<Rightarrow> x"
  obtain e where e: "expectedFantasyPoints (Some ?ps) (Some r) (position pl) (Some g) = Inr e"
    using expectedFantasyPoints_total by blast
  obtain b where b: "applyMultiTDBonus e (Some ?ps) (Some r) (position pl) = Inr b"
    using applyMultiTDBonus_total by blast
  show ?thesis using Some e b by (simp add: estimate_player_def Let_def)
qed

lemma estimate_all_total: "\<exists>xs. estimate_all lines allProps (Some r) roster = Inr xs"
proof (induction roster)
  case Nil
  then show ?case by simp
next
  case (Cons pl roster)
  obtain x where "estimate_player lines allProps (Some r) pl = Inr x"
    using estimate_player_total by blast
  then show ?case using Cons.IH by auto
qed

lemma run_pipeline_total: "\<exists>out. run_pipeline engine lines allProps (Some r) cs roster = Inr out"
proof -
  obtain xs where "estimate_all lines allProps (Some r) roster = Inr xs"
    using estimate_all_total by blast
  then show ?thesis by (simp add: run_pipeline_def Let_def)
qed

lemma add_stat_NaN: "add_stat ps (Some r) kf (Inr NaN) = Inr NaN"
  by (simp add: add_stat_def split: option.splits)

lemma fold_add_stat_NaN: "fold (add_stat ps (Some r)) kfs (Inr NaN) = Inr NaN"
  by (induction kfs) (simp_all add: add_stat_NaN)

lemma fold_missing_weight:
  assumes "(k, f) \<in> set kfs" "truthy (prop_val ps k)" "f r = None"
  shows "fold (add_stat ps (Some r)) kfs (Inr e) = Inr NaN"
  using assms(1)
proof (induction kfs arbitrary: e)
  case Nil
  then show ?case by simp
next
  case (Cons kf kfs)
  show ?case
  proof (cases "kf = (k, f)")
    case True
    have "add_stat ps (Some r) kf (Inr e) = Inr NaN"
      using True assms(2,3) by (auto simp: add_stat_def truthy_def jadd_NaN split: option.splits)
    then show ?thesis by (simp add: fold_add_stat_NaN)
  next
    case False
    then have m: "(k, f) \<in> set kfs" using Cons.prems by simp
    obtain v where "add_stat ps (Some r) kf (Inr e) = Inr v"
      using add_stat_Inr by blast
    then show ?thesis using Cons.IH [OF m, of v] by simp
  qed
qed

lemma missing_weight_NaN:
  assumes "(k, f) \<in> set (stat_lines pos)" "truthy (prop_val ps k)" "f r = None"
  shows "expectedFantasyPoints (Some ps) (Some r) pos cx = Inr NaN"
proof -
  have "ps \<noteq> []" using assms(2) by (auto simp: truthy_def prop_val_def)
  then show ?thesis
    using fold_missing_weight [OF assms] by (simp add: expectedFantasyPoints_def)
qed

lemma missing_rule_estimate:
  "estimate_all [home_favorite_game] [(''Q'', [(''pass_tds'', 2)])] (Some rules_without_passTD)
       qb_roster =
     Inr [\<lparr>name = ''Q'', position = ''QB'', team = ''KC'', status = None, bye_week = Some 6,
           slot = ''QB'', props = [(''pass_tds'', 2)], pcontext = Some home_favorite_game,
           efp = NaN, ceiling_bonus = Num 0, is_bye_week = False\<rparr>]"
  by (simp add: qb_roster_def estimate_player_def home_game_teams
      missing_weight_NaN [where k = "''pass_tds''" and f = passTD] stat_lines_def
      truthy_def prop_val_def rules_without_passTD_def default_rules_def
      applyMultiTDBonus_formula position_weight_def player.defs est_player.defs)

text \<open>
  Claim C10, as stated, on rules that have no \<^verbatim>\<open>passTD\<close>: the estimator returns
  \<open>NaN\<close> for a quarterback with a passing-touchdown prop instead of failing, and the
  pipeline returns a lineup in which the \<^verbatim>\<open>efp\<close> and the \<^verbatim>\<open>score\<close> of the quarterback
  are \<open>NaN\<close> and the tier is D (the array to sort has one player, which every engine
  returns as it is).
\<close>

theorem missing_rule_counterexample:
  "expectedFantasyPoints (Some [(''pass_tds'', 2)]) (Some rules_without_passTD) ''QB'' None = Inr NaN \<and>
   (case run_pipeline reversing_engine [home_favorite_game] [(''Q'', [(''pass_tds'', 2)])]
           (Some rules_without_passTD) example_counts qb_roster of
      Inl e \<Rightarrow> []
    | Inr out \<Rightarrow> map (\<lambda>p. (name p, efp p, score p, tier p)) (fst out @ fst (snd out)))
   = [(''Q'', NaN, NaN, Some ''D'')]"
proof
  show "expectedFantasyPoints (Some [(''pass_tds'', 2)]) (Some rules_without_passTD) ''QB'' None = Inr NaN"
    by (rule missing_weight_NaN [where k = "''pass_tds''" and f = passTD])
       (simp_all add: stat_lines_def truthy_def prop_val_def rules_without_passTD_def
          default_rules_def)
  show "(case run_pipeline reversing_engine [home_favorite_game] [(''Q'', [(''pass_tds'', 2)])]
           (Some rules_without_passTD) example_counts qb_roster of
      Inl e \<Rightarrow> []
    | Inr out \<Rightarrow> map (\<lambda>p. (name p, efp p, score p, tier p)) (fst out @ fst (snd out)))
   = [(''Q'', NaN, NaN, Some ''D'')]"
    unfolding run_pipeline_def missing_rule_estimate
    apply (simp add: assignTiers_def Let_def score_player_def est_player.defs scored_player.defs
      calculateSitStartScore_def calculateZScore_def)
    apply (simp add: fillLineup_def js_sort_single fill_step_def Let_def
      example_counts_def tier_of_def)
    done
qed

text \<open>
  Claim C10, amended. With rules that are an object, whichever fields it has, nothing
  fails: the pipeline returns a lineup for every roster, lines, props and slot
  requirements (so missing props, a missing game context and a cohort without variance
  do not fail either), and so do the estimator and the ceiling bonus; a missing weight is
  not rejected but turns the estimate into \<open>NaN\<close> as soon as the prop of its stat line
  is there. The estimator fails, with a \<^verbatim>\<open>TypeError\<close>, only when the rules object itself
  is missing and a prop is there.
\<close>

theorem no_failure_propagates:
  "(\<exists>out. run_pipeline engine lines allProps (Some r) cs roster = Inr out) \<and>
   (\<exists>v. expectedFantasyPoints prs (Some r) pos cx = Inr v) \<and>
   (\<exists>v. applyMultiTDBonus e (Some ps) (Some r) pos = Inr v) \<and>
   ((k, f) \<in> set (stat_lines pos) \<and> truthy (prop_val ps k) \<and> f r = None \<longrightarrow>
      expectedFantasyPoints (Some ps) (Some r) pos cx = Inr NaN) \<and>
   expectedFantasyPoints (Some [(''pass_tds'', 2)]) None pos cx = Inl TypeError"
proof (intro conjI impI)
  show "\<exists>out. run_pipeline engine lines allProps (Some r) cs roster = Inr out"
    by (rule run_pipeline_total)
  show "\<exists>v. expectedFantasyPoints prs (Some r) pos cx = Inr v"
    by (rule expectedFantasyPoints_total)
  show "\<exists>v. applyMultiTDBonus e (Some ps) (Some r) pos = Inr v"
    by (rule applyMultiTDBonus_total)
  show "expectedFantasyPoints (Some [(''pass_tds'', 2)]) None pos cx = Inl TypeError"
    by (simp add: expectedFantasyPoints_def stat_lines_def add_stat_def prop_val_def)
next
  assume "(k, f) \<in> set (stat_lines pos) \<and> truthy (prop_val ps k) \<and> f r = None"
  then show "expectedFantasyPoints (Some ps) (Some r) pos cx = Inr NaN"
    using missing_weight_NaN by blast
qed

theorem no_failure_propagates_witness:
  "(''pass_tds'', passTD) \<in> set (stat_lines ''QB'') \<and>
   truthy (prop_val [(''pass_tds'', 2)] ''pass_tds'') \<and> passTD rules_without_passTD = None \<and>
   expectedFantasyPoints (Some [(''pass_tds'', 2)]) (Some rules_without_passTD) ''QB''
     (Some home_favorite_game) = Inr NaN"
proof -
  have h: "(''pass_tds'', passTD) \<in> set (stat_lines ''QB'') \<and>
      truthy (prop_val [(''pass_tds'', 2)] ''pass_tds'') \<and> passTD rules_without_passTD = None"
    by (simp add: stat_lines_def truthy_def prop_val_def rules_without_passTD_def default_rules_def)
  note nan = no_failure_propagates [where ps = "[(''pass_tds'', 2)]" and r = rules_without_passTD
        and pos = "''QB''" and cx = "Some home_favorite_game" and k = "''pass_tds''" and f = passTD,
        THEN conjunct2, THEN conjunct2, THEN conjunct2, THEN conjunct1, THEN mp, OF h]
  show ?thesis using h nan by blast
qed

end
